theory Spec2Isabelle
  imports Main "HOL-Library.Word"
begin

unbundle bit_operations_syntax

section \<open>Data model\<close>

type_synonym u8 = "8 word"
type_synonym u16 = "16 word"
type_synonym u32 = "32 word"

text \<open>
  Exceptions of the C++ code as values: \<open>std::array::at\<close> throws \<open>std::out_of_range\<close>,
  \<open>DEBUG_ASSERT\<close> fails in a debug build.
\<close>

datatype error = OutOfRange | AssertFailed

text \<open>
  Modelled from the spec: the declaration of \<open>enum class PatchType\<close> (PatchEngine.h) is
  missing. The code converts it to and from \<open>int\<close> with \<open>static_cast\<close> and uses the
  result as an index into \<open>s_patch_type_strings\<close>, and the spec says the three tokens map
  to the enum in fixed order. So a patch type is its underlying integer, the three
  enumerators are 0, 1 and 2, and any other integer is a value \<open>ApplyPatches\<close> meets in
  its \<open>default:\<close> branch.
\<close>

type_synonym PatchType = int

definition Patch8Bit :: PatchType where "Patch8Bit = 0"
definition Patch16Bit :: PatchType where "Patch16Bit = 1"
definition Patch32Bit :: PatchType where "Patch32Bit = 2"

definition known_type :: "PatchType \<Rightarrow> bool" where
  "known_type t \<longleftrightarrow> t = Patch8Bit \<or> t = Patch16Bit \<or> t = Patch32Bit"

record PatchEntry =
  type' :: PatchType
  address :: u32
  value' :: u32
  comparand :: u32
  conditional :: bool

text \<open>
  Modelled from the spec: the declaration of \<open>struct PatchEntry\<close> (PatchEngine.h) is missing,
  and with it the member initialisers that \<open>PatchEntry entry;\<close> runs. The spec says an
  entry is conditional when a fourth field marks it so; a fresh entry is unconditional,
  with every number 0.
\<close>

definition PatchEntry_default :: PatchEntry where
  "PatchEntry_default =
     \<lparr>type' = Patch8Bit, address = 0, value' = 0, comparand = 0, conditional = False\<rparr>"

record Patch =
  name :: string
  entries :: "PatchEntry list"
  enabled :: bool
  default_enabled :: bool
  user_defined :: bool

text \<open>
  Modelled from the spec: the declaration of \<open>struct Patch\<close> (PatchEngine.h) is missing.
  \<open>Patch currentPatch;\<close> starts with an empty name and no entries (the standard
  containers' default constructors); the three flags start false (the spec: a patch with
  no override line has \<open>enabled == default_enabled\<close>).
\<close>

definition Patch_default :: Patch where
  "Patch_default =
     \<lparr>name = [], entries = [], enabled = False, default_enabled = False, user_defined = False\<rparr>"

section \<open>Entry codec\<close>

definition s_patch_type_strings :: "string list" where
  "s_patch_type_strings = [''byte'', ''word'', ''dword'']"

definition PatchTypeAsString :: "PatchType \<Rightarrow> error + string" where
  "PatchTypeAsString t =
     (if 0 \<le> t \<and> t < int (length s_patch_type_strings)
      then Inr (s_patch_type_strings ! nat t) else Inl OutOfRange)"

text \<open>
  Modelled from the spec: \<open>SplitString\<close> (Common/StringUtil) is missing; the spec says the
  line is split on the delimiter. A string with n delimiters has n + 1 fields, empty ones
  included. (The theorems below use of it only that fields which hold no delimiter, joined
  by the delimiter, are split into those fields.)
\<close>

fun SplitString :: "string \<Rightarrow> char \<Rightarrow> string list" where
  "SplitString [] delim = [[]]"
| "SplitString (c # cs) delim =
     (if c = delim then [] # SplitString cs delim
      else (case SplitString cs delim of
              [] \<Rightarrow> [[c]]
            | f # fs \<Rightarrow> (c # f) # fs))"

text \<open>
  Modelled from the spec: \<open>TryParse\<close> (Common/StringUtil) is missing; the spec says an
  integer literal is hexadecimal with the prefix \<open>0x\<close>, or decimal. The literal has at
  least one digit and its value fits the 32-bit output.
\<close>

definition digit_val :: "char \<Rightarrow> nat option" where
  "digit_val c =
     (let n = (of_char c :: nat) in
      if 48 \<le> n \<and> n \<le> 57 then Some (n - 48)
      else if 65 \<le> n \<and> n \<le> 70 then Some (n - 55)
      else if 97 \<le> n \<and> n \<le> 102 then Some (n - 87)
      else None)"

fun parse_digits :: "nat \<Rightarrow> nat \<Rightarrow> string \<Rightarrow> nat option" where
  "parse_digits base acc [] = Some acc"
| "parse_digits base acc (c # cs) =
     (case digit_val c of
        None \<Rightarrow> None
      | Some d \<Rightarrow> if d < base then parse_digits base (base * acc + d) cs else None)"

definition parse_number :: "nat \<Rightarrow> string \<Rightarrow> u32 option" where
  "parse_number base ds =
     (if ds = [] then None
      else (case parse_digits base 0 ds of
              None \<Rightarrow> None
            | Some v \<Rightarrow> if v < 2 ^ 32 then Some (of_nat v) else None))"

definition TryParse :: "string \<Rightarrow> u32 option" where
  "TryParse str =
     (case str of
        CHR ''0'' # CHR ''x'' # ds \<Rightarrow> parse_number 16 ds
      | _ \<Rightarrow> parse_number 10 str)"

text \<open>\<open>line.find('=')\<close> followed by \<open>line[loc] = ':'\<close>: the first \<open>=\<close> becomes \<open>:\<close>.\<close>

fun replace_first :: "char \<Rightarrow> char \<Rightarrow> string \<Rightarrow> string" where
  "replace_first a b [] = []"
| "replace_first a b (c # cs) = (if c = a then b # cs else c # replace_first a b cs)"

text \<open>
  \<open>std::distance(first, std::find(first, last, x))\<close>: the index of the first element
  equal to \<open>x\<close>, the length of the range when there is none.
\<close>

definition find_distance :: "'a list \<Rightarrow> 'a \<Rightarrow> nat" where
  "find_distance xs x = length (takeWhile (\<lambda>y. y \<noteq> x) xs)"

definition DeserializeLine :: "string \<Rightarrow> PatchEntry option" where
  "DeserializeLine line0 =
     (let line = replace_first (CHR ''='') (CHR '':'') line0;
          items = SplitString line (CHR '':'');
          entry = PatchEntry_default
      in if length items < 3 then None
         else case TryParse (items ! 0) of
           None \<Rightarrow> None
         | Some a \<Rightarrow>
           (case TryParse (items ! 2) of
              None \<Rightarrow> None
            | Some v \<Rightarrow>
              (case (if 4 \<le> length items
                     then (case TryParse (items ! 3) of
                             None \<Rightarrow> None
                           | Some c \<Rightarrow>
                               Some (entry\<lparr>address := a, value' := v, comparand := c,
                                            conditional := True\<rparr>))
                     else Some (entry\<lparr>address := a, value' := v\<rparr>)) of
                 None \<Rightarrow> None
               | Some entry1 \<Rightarrow>
                   (let iter = find_distance s_patch_type_strings (items ! 1)
                    in if iter = length s_patch_type_strings then None
                       else Some (entry1\<lparr>type' := int iter\<rparr>)))))"

text \<open>
  \<open>fmt::format("0x{:08X}", v)\<close> on a 32-bit value: the prefix and eight upper-case
  hexadecimal digits, most significant first, padded with zeros.
\<close>

definition hex_char :: "nat \<Rightarrow> char" where
  "hex_char n = ''0123456789ABCDEF'' ! n"

fun hex_digits :: "nat \<Rightarrow> nat \<Rightarrow> string" where
  "hex_digits 0 v = []"
| "hex_digits (Suc n) v = hex_digits n (v div 16) @ [hex_char (v mod 16)]"

definition format_0x08X :: "u32 \<Rightarrow> string" where
  "format_0x08X w = ''0x'' @ hex_digits 8 (unat w)"

definition SerializeLine :: "PatchEntry \<Rightarrow> error + string" where
  "SerializeLine entry =
     (if conditional entry
      then (case PatchTypeAsString (type' entry) of
              Inl e \<Rightarrow> Inl e
            | Inr t \<Rightarrow>
                Inr (format_0x08X (address entry) @ '':'' @ t @ '':'' @
                     format_0x08X (value' entry) @ '':'' @ format_0x08X (comparand entry)))
      else (case PatchTypeAsString (type' entry) of
              Inl e \<Rightarrow> Inl e
            | Inr t \<Rightarrow>
                Inr (format_0x08X (address entry) @ '':'' @ t @ '':'' @
                     format_0x08X (value' entry))))"

text \<open>
  The canonical form of a serialized number: eight upper-case hexadecimal digits (after
  the prefix \<open>0x\<close>).
\<close>

definition upper_hex8 :: "string \<Rightarrow> bool" where
  "upper_hex8 ds \<longleftrightarrow> length ds = 8 \<and> list_all (\<lambda>c. c \<in> set ''0123456789ABCDEF'') ds"

section \<open>Configuration sources\<close>

text \<open>
  Modelled from the spec: \<open>IniFile\<close> (Common/IniFile) is missing. A configuration source
  exposes, for each section name, a sequence of lines and a flat list of key/value rows;
  a missing section has neither. \<open>Get\<close> returns the value of the first row with the key,
  the default when there is none.
\<close>

record IniFile =
  section_lines :: "string \<Rightarrow> string list"
  section_keys :: "string \<Rightarrow> (string \<times> string) list"

definition GetLines :: "IniFile \<Rightarrow> string \<Rightarrow> string list" where
  "GetLines ini sec = section_lines ini sec"

definition SetLines :: "IniFile \<Rightarrow> string \<Rightarrow> string list \<Rightarrow> IniFile" where
  "SetLines ini sec lines = ini\<lparr>section_lines := (section_lines ini)(sec := lines)\<rparr>"

definition GetKeys :: "IniFile \<Rightarrow> string \<Rightarrow> string list" where
  "GetKeys ini sec = map fst (section_keys ini sec)"

definition Get :: "IniFile \<Rightarrow> string \<Rightarrow> string \<Rightarrow> string \<Rightarrow> string" where
  "Get ini sec key default_value =
     (case map_of (section_keys ini sec) key of
        None \<Rightarrow> default_value
      | Some v \<Rightarrow> v)"

text \<open>
  Modelled from the spec: \<open>ReadEnabledAndDisabled\<close> (Core/CheatCodes.h) is missing. The
  spec: read the line sets \<open><section>_Enabled\<close> and \<open><section>_Disabled\<close> of the same
  source, lists of bare \<open>$<name>\<close> lines; every patch whose name matches a line of the
  first is enabled, every patch whose name matches a line of the second is disabled.
\<close>

definition ReadEnabledOrDisabled ::
    "IniFile \<Rightarrow> string \<Rightarrow> bool \<Rightarrow> Patch list \<Rightarrow> Patch list" where
  "ReadEnabledOrDisabled ini sec en codes =
     map (\<lambda>code. if CHR ''$'' # name code \<in> set (GetLines ini sec)
                 then code\<lparr>enabled := en\<rparr> else code) codes"

definition ReadEnabledAndDisabled :: "IniFile \<Rightarrow> string \<Rightarrow> Patch list \<Rightarrow> Patch list" where
  "ReadEnabledAndDisabled ini sec codes =
     ReadEnabledOrDisabled ini (sec @ ''_Disabled'') False
       (ReadEnabledOrDisabled ini (sec @ ''_Enabled'') True codes)"

section \<open>Config merger\<close>

text \<open>
  The body of the loop over the lines of one source. The state is the output list and
  \<open>currentPatch\<close>; \<open>is_local\<close> is the test \<open>ini == &localIni\<close>.
\<close>

definition LoadPatchSection_line ::
    "bool \<Rightarrow> Patch list \<times> Patch \<Rightarrow> string \<Rightarrow> Patch list \<times> Patch" where
  "LoadPatchSection_line is_local st line =
     (case st of (patches, currentPatch) \<Rightarrow>
        if line = [] then (patches, currentPatch)
        else if line ! 0 = CHR ''$'' then
          (if name currentPatch \<noteq> [] then patches @ [currentPatch] else patches,
           currentPatch\<lparr>entries := [],
                         name := take (length line - 1) (drop 1 line),
                         user_defined := is_local\<rparr>)
        else (case DeserializeLine line of
                Some entry \<Rightarrow>
                  (patches, currentPatch\<lparr>entries := entries currentPatch @ [entry]\<rparr>)
              | None \<Rightarrow> (patches, currentPatch)))"

text \<open>
  One iteration of the loop over the two sources: \<open>is_global\<close> and \<open>is_local\<close> are the
  tests \<open>ini == &globalIni\<close> and \<open>ini == &localIni\<close>. \<open>currentPatch\<close> is declared inside
  the loop, so each source starts from a fresh one.
\<close>

definition LoadPatchSection_ini ::
    "string \<Rightarrow> IniFile \<Rightarrow> bool \<Rightarrow> bool \<Rightarrow> Patch list \<Rightarrow> Patch list" where
  "LoadPatchSection_ini sec ini is_global is_local patches =
     (case foldl (LoadPatchSection_line is_local) (patches, Patch_default) (GetLines ini sec) of
        (patches1, currentPatch) \<Rightarrow>
          (let patches2 =
                 (if name currentPatch \<noteq> [] \<and> entries currentPatch \<noteq> []
                  then patches1 @ [currentPatch] else patches1);
               patches3 = ReadEnabledAndDisabled ini sec patches2
           in if is_global
              then map (\<lambda>patch. patch\<lparr>default_enabled := enabled patch\<rparr>) patches3
              else patches3))"

text \<open>
  The two sources are two objects (at the call in \<open>LoadPatches\<close> they are two local
  variables), so the pointer tests tell them apart. The output list is an in/out
  parameter: the function appends to what it holds.
\<close>

definition LoadPatchSection ::
    "string \<Rightarrow> Patch list \<Rightarrow> IniFile \<Rightarrow> IniFile \<Rightarrow> Patch list" where
  "LoadPatchSection sec patches globalIni localIni =
     LoadPatchSection_ini sec localIni False True
       (LoadPatchSection_ini sec globalIni True False patches)"

text \<open>The inner loop of \<open>SavePatchSection\<close>; an exception of \<open>SerializeLine\<close> leaves it.\<close>

fun SavePatchSection_entries :: "string list \<Rightarrow> PatchEntry list \<Rightarrow> error + string list" where
  "SavePatchSection_entries lines [] = Inr lines"
| "SavePatchSection_entries lines (entry # rest) =
     (case SerializeLine entry of
        Inl e \<Rightarrow> Inl e
      | Inr s \<Rightarrow> SavePatchSection_entries (lines @ [s]) rest)"

text \<open>The outer loop, on the triple \<open>(lines, lines_enabled, lines_disabled)\<close>.\<close>

fun SavePatchSection_loop ::
    "string list \<times> string list \<times> string list \<Rightarrow> Patch list \<Rightarrow>
     error + string list \<times> string list \<times> string list" where
  "SavePatchSection_loop acc [] = Inr acc"
| "SavePatchSection_loop (lines, lines_enabled, lines_disabled) (patch # rest) =
     (let lines_enabled1 =
            (if enabled patch \<noteq> default_enabled patch \<and> enabled patch
             then lines_enabled @ [CHR ''$'' # name patch] else lines_enabled);
          lines_disabled1 =
            (if enabled patch \<noteq> default_enabled patch \<and> \<not> enabled patch
             then lines_disabled @ [CHR ''$'' # name patch] else lines_disabled)
      in if \<not> user_defined patch
         then SavePatchSection_loop (lines, lines_enabled1, lines_disabled1) rest
         else (case SavePatchSection_entries (lines @ [CHR ''$'' # name patch]) (entries patch) of
                 Inl e \<Rightarrow> Inl e
               | Inr lines1 \<Rightarrow>
                   SavePatchSection_loop (lines1, lines_enabled1, lines_disabled1) rest))"

definition SavePatchSection :: "IniFile \<Rightarrow> Patch list \<Rightarrow> error + IniFile" where
  "SavePatchSection local_ini patches =
     (case SavePatchSection_loop ([], [], []) patches of
        Inl e \<Rightarrow> Inl e
      | Inr (lines, lines_enabled, lines_disabled) \<Rightarrow>
          Inr (SetLines
                (SetLines (SetLines local_ini ''OnFrame_Enabled'' lines_enabled)
                   ''OnFrame_Disabled'' lines_disabled)
                ''OnFrame'' lines))"

section \<open>Speed-hack table\<close>

type_synonym speed_hacks = "u32 \<rightharpoonup> int"

text \<open>
  The body of the loop over the keys. \<open>cycles\<close> is parsed as \<open>u32\<close> and stored as
  \<open>static_cast<int>(cycles)\<close>, its two's-complement reading.
\<close>

definition LoadSpeedhacks_key :: "string \<Rightarrow> IniFile \<Rightarrow> speed_hacks \<Rightarrow> string \<Rightarrow> speed_hacks" where
  "LoadSpeedhacks_key sec ini table key =
     (let val = Get ini sec key ''BOGUS''
      in if val \<noteq> ''BOGUS''
         then (case TryParse key of
                 None \<Rightarrow> table
               | Some addr \<Rightarrow>
                   (case TryParse val of
                      None \<Rightarrow> table
                    | Some cycles \<Rightarrow> table(addr \<mapsto> sint cycles)))
         else table)"

definition LoadSpeedhacks :: "string \<Rightarrow> IniFile \<Rightarrow> speed_hacks \<Rightarrow> speed_hacks" where
  "LoadSpeedhacks sec ini table = foldl (LoadSpeedhacks_key sec ini) table (GetKeys ini sec)"

definition GetSpeedhackCycles :: "speed_hacks \<Rightarrow> u32 \<Rightarrow> int" where
  "GetSpeedhackCycles table addr = (case table addr of None \<Rightarrow> 0 | Some cycles \<Rightarrow> cycles)"

section \<open>The host: emulated CPU, guest memory and the other engines\<close>

text \<open>
  The emulated CPU, the guest memory, the configuration store and the code-injection
  engines are external to PatchEngine.cpp; none of their code is among the sources. The
  state of all of them is a value of a type \<open>'m\<close>, and their operations are
  parameters, collected in two records: the accessors of PowerPC/MMU and PowerPC, and
  the calls into Core, Gecko, ActionReplay, Config and SConfig. The host reads are
  functions of the state; the writes and the engines return the new state.
\<close>

record 'm PowerPC =
  MSR_DR :: "'m \<Rightarrow> bool"
  MSR_IR :: "'m \<Rightarrow> bool"
  GPR :: "'m \<Rightarrow> nat \<Rightarrow> u32"
  HostIsRAMAddress :: "'m \<Rightarrow> u32 \<Rightarrow> bool"
  HostIsInstructionRAMAddress :: "'m \<Rightarrow> u32 \<Rightarrow> bool"
  HostRead_U8 :: "'m \<Rightarrow> u32 \<Rightarrow> u8"
  HostRead_U16 :: "'m \<Rightarrow> u32 \<Rightarrow> u16"
  HostRead_U32 :: "'m \<Rightarrow> u32 \<Rightarrow> u32"
  HostRead_Instruction :: "'m \<Rightarrow> u32 \<Rightarrow> u32"
  HostWrite_U8 :: "u8 \<Rightarrow> u32 \<Rightarrow> 'm \<Rightarrow> 'm"
  HostWrite_U16 :: "u16 \<Rightarrow> u32 \<Rightarrow> 'm \<Rightarrow> 'm"
  HostWrite_U32 :: "u32 \<Rightarrow> u32 \<Rightarrow> 'm \<Rightarrow> 'm"

record 'm Collaborators =
  RunRioFunctions :: "'m \<Rightarrow> 'm"
  RunCodeHandler :: "'m \<Rightarrow> 'm"
  isTagSetActive :: "'m \<Rightarrow> bool"
  RunAllActive :: "'m \<Rightarrow> 'm"
  LoadGameIni :: "'m \<Rightarrow> IniFile"
  LoadDefaultGameIni :: "'m \<Rightarrow> IniFile"
  LoadLocalGameIni :: "'m \<Rightarrow> IniFile"
  SESSION_CODE_SYNC_OVERRIDE :: "'m \<Rightarrow> bool"
  SetSyncedCodesAsActive :: "'m \<Rightarrow> 'm"
  SetActiveCodes_LoadCodes :: "IniFile \<Rightarrow> IniFile \<Rightarrow> 'm \<Rightarrow> 'm"
  ApplyCodes_none :: "'m \<Rightarrow> 'm"
  Gecko_Shutdown :: "'m \<Rightarrow> 'm"

text \<open>
  The process-wide state: the two statics of PatchEngine.cpp, and the state of the host.
\<close>

record 'm state =
  s_on_frame :: "Patch list"
  s_speed_hacks :: speed_hacks
  host :: 'm

section \<open>Applier\<close>

text \<open>The \<open>switch\<close> of \<open>ApplyPatches\<close>, for one entry.\<close>

definition ApplyPatches_entry :: "'m PowerPC \<Rightarrow> 'm \<Rightarrow> PatchEntry \<Rightarrow> 'm" where
  "ApplyPatches_entry P m entry =
     (let addr = address entry; val = value' entry; cmp = comparand entry
      in if type' entry = Patch8Bit then
           (if \<not> conditional entry \<or> HostRead_U8 P m addr = ucast cmp
            then HostWrite_U8 P (ucast val) addr m else m)
         else if type' entry = Patch16Bit then
           (if \<not> conditional entry \<or> HostRead_U16 P m addr = ucast cmp
            then HostWrite_U16 P (ucast val) addr m else m)
         else if type' entry = Patch32Bit then
           (if \<not> conditional entry \<or> HostRead_U32 P m addr = cmp
            then HostWrite_U32 P val addr m else m)
         else m)"

definition ApplyPatches :: "'m PowerPC \<Rightarrow> Patch list \<Rightarrow> 'm \<Rightarrow> 'm" where
  "ApplyPatches P patches m =
     foldl (\<lambda>m1 patch.
              if enabled patch then foldl (ApplyPatches_entry P) m1 (entries patch) else m1)
       m patches"

text \<open>
  \<open>DEBUG_ASSERT(MSR.DR && MSR.IR)\<close> is the first statement of \<open>IsStackSane\<close>; the
  arithmetic is that of \<open>u32\<close>: \<open>next_SP + 4\<close> wraps and \<open><=\<close> is unsigned.
\<close>

definition IsStackSane :: "'m PowerPC \<Rightarrow> 'm \<Rightarrow> error + bool" where
  "IsStackSane P m =
     (if \<not> (MSR_DR P m \<and> MSR_IR P m) then Inl AssertFailed
      else let SP = GPR P m 1
           in if \<not> HostIsRAMAddress P m SP then Inr False
              else let next_SP = HostRead_U32 P m SP
                   in if next_SP \<le> SP \<or> \<not> HostIsRAMAddress P m next_SP \<or>
                         \<not> HostIsRAMAddress P m (next_SP + 4)
                      then Inr False
                      else let addr = HostRead_U32 P m (next_SP + 4)
                           in Inr (HostIsInstructionRAMAddress P m addr \<and>
                                   0 \<noteq> HostRead_Instruction P m addr))"

text \<open>
  The result is the returned flag and the state after the call. On the retry path the
  code only writes a debug log line.
\<close>

definition ApplyFramePatches ::
    "'m PowerPC \<Rightarrow> 'm Collaborators \<Rightarrow> 'm state \<Rightarrow> error + bool \<times> 'm state" where
  "ApplyFramePatches P C s =
     (if \<not> MSR_DR P (host s) \<or> \<not> MSR_IR P (host s) then Inr (False, s)
      else (case IsStackSane P (host s) of
              Inl e \<Rightarrow> Inl e
            | Inr sane \<Rightarrow>
                if \<not> sane then Inr (False, s)
                else (let m1 = RunRioFunctions C (host s);
                          m2 = RunCodeHandler C m1;
                          m3 = (if \<not> isTagSetActive C m2
                                then RunAllActive C (ApplyPatches P (s_on_frame s) m2)
                                else m2)
                      in Inr (True, s\<lparr>host := m3\<rparr>))))"

section \<open>Lifecycle\<close>

definition LoadPatches :: "'m Collaborators \<Rightarrow> 'm state \<Rightarrow> 'm state" where
  "LoadPatches C s =
     (let merged = LoadGameIni C (host s);
          globalIni = LoadDefaultGameIni C (host s);
          localIni = LoadLocalGameIni C (host s);
          on_frame = LoadPatchSection ''OnFrame'' (s_on_frame s) globalIni localIni;
          m1 = (if SESSION_CODE_SYNC_OVERRIDE C (host s) \<and> \<not> isTagSetActive C (host s)
                then SetSyncedCodesAsActive C (host s)
                else SetActiveCodes_LoadCodes C globalIni localIni (host s))
      in \<lparr>s_on_frame = on_frame,
          s_speed_hacks = LoadSpeedhacks ''Speedhacks'' merged (s_speed_hacks s),
          host = m1\<rparr>)"

definition Shutdown :: "'m Collaborators \<Rightarrow> 'm state \<Rightarrow> 'm state" where
  "Shutdown C s =
     \<lparr>s_on_frame = [], s_speed_hacks = Map.empty,
      host = Gecko_Shutdown C (ApplyCodes_none C (host s))\<rparr>"

definition Reload :: "'m Collaborators \<Rightarrow> 'm state \<Rightarrow> 'm state" where
  "Reload C s = LoadPatches C (Shutdown C s)"

section \<open>A sample host\<close>

text \<open>
  A small host on which the operations above can be run: byte-addressed big-endian
  memory, a set of RAM addresses shared by data and instructions, and engines that do
  nothing.
\<close>

record sample_machine =
  dr :: bool
  ir :: bool
  sp :: u32
  ram :: "u32 \<Rightarrow> bool"
  mem :: "u32 \<Rightarrow> u8"
  tag_set :: bool
  sm_game_ini :: IniFile
  sm_default_ini :: IniFile
  sm_local_ini :: IniFile

definition sample_read16 :: "sample_machine \<Rightarrow> u32 \<Rightarrow> u16" where
  "sample_read16 m a = push_bit 8 (ucast (mem m a)) OR ucast (mem m (a + 1))"

definition sample_read32 :: "sample_machine \<Rightarrow> u32 \<Rightarrow> u32" where
  "sample_read32 m a =
     push_bit 24 (ucast (mem m a)) OR push_bit 16 (ucast (mem m (a + 1))) OR
     push_bit 8 (ucast (mem m (a + 2))) OR ucast (mem m (a + 3))"

definition sample_PowerPC :: "sample_machine PowerPC" where
  "sample_PowerPC =
     \<lparr>MSR_DR = dr, MSR_IR = ir, GPR = (\<lambda>m n. if n = 1 then sp m else 0),
      HostIsRAMAddress = ram, HostIsInstructionRAMAddress = ram,
      HostRead_U8 = mem, HostRead_U16 = sample_read16, HostRead_U32 = sample_read32,
      HostRead_Instruction = sample_read32,
      HostWrite_U8 = (\<lambda>v a m. m\<lparr>mem := (mem m)(a := v)\<rparr>),
      HostWrite_U16 = (\<lambda>v a m. m\<lparr>mem := (mem m)(a := ucast (drop_bit 8 v), a + 1 := ucast v)\<rparr>),
      HostWrite_U32 = (\<lambda>v a m. m\<lparr>mem := (mem m)(a := ucast (drop_bit 24 v),
                          a + 1 := ucast (drop_bit 16 v), a + 2 := ucast (drop_bit 8 v),
                          a + 3 := ucast v)\<rparr>)\<rparr>"

definition sample_Collaborators :: "sample_machine Collaborators" where
  "sample_Collaborators =
     \<lparr>RunRioFunctions = (\<lambda>m. m), RunCodeHandler = (\<lambda>m. m), isTagSetActive = tag_set,
      RunAllActive = (\<lambda>m. m), LoadGameIni = sm_game_ini, LoadDefaultGameIni = sm_default_ini,
      LoadLocalGameIni = sm_local_ini, SESSION_CODE_SYNC_OVERRIDE = (\<lambda>m. False),
      SetSyncedCodesAsActive = (\<lambda>m. m), SetActiveCodes_LoadCodes = (\<lambda>g l m. m),
      ApplyCodes_none = (\<lambda>m. m), Gecko_Shutdown = (\<lambda>m. m)\<rparr>"

definition empty_ini :: IniFile where
  "empty_ini = \<lparr>section_lines = (\<lambda>sec. []), section_keys = (\<lambda>sec. [])\<rparr>"

definition sample_filled :: "u8 \<Rightarrow> sample_machine" where
  "sample_filled b =
     \<lparr>dr = True, ir = True, sp = 16, ram = (\<lambda>a. True), mem = (\<lambda>a. b), tag_set = False,
      sm_game_ini = empty_ini, sm_default_ini = empty_ini, sm_local_ini = empty_ini\<rparr>"

definition sample_speedhacks_ini :: IniFile where
  "sample_speedhacks_ini =
     \<lparr>section_lines = (\<lambda>sec. []),
      section_keys = (\<lambda>sec. if sec = ''Speedhacks''
                            then [(''0x10'', ''5''), (''0x8000'', ''bad''), (''zz'', ''7'')] else [])\<rparr>"

definition sample_entry :: PatchEntry where
  "sample_entry =
     \<lparr>type' = Patch32Bit, address = 0x80001234, value' = 1, comparand = 0, conditional = False\<rparr>"

definition sample_global_ini :: IniFile where
  "sample_global_ini =
     \<lparr>section_lines =
        (\<lambda>sec. if sec = ''OnFrame''
               then [''0x80000000:byte:0x00000001'', ''$Foo'', ''0x80001234:dword:0x00000001'']
               else if sec = ''OnFrame_Enabled'' then [''$Foo''] else []),
      section_keys = (\<lambda>sec. [])\<rparr>"

definition sample_local_ini :: IniFile where
  "sample_local_ini =
     \<lparr>section_lines =
        (\<lambda>sec. if sec = ''OnFrame'' then [''$Bar'', ''$Baz'']
               else if sec = ''OnFrame_Disabled'' then [''$Foo''] else []),
      section_keys = (\<lambda>sec. [])\<rparr>"

definition sample_patches :: "Patch list" where
  "sample_patches =
     [\<lparr>name = ''Foo'', entries = [sample_entry], enabled = False, default_enabled = True,
        user_defined = False\<rparr>,
      \<lparr>name = ''Bar'', entries = [sample_entry], enabled = False, default_enabled = False,
        user_defined = True\<rparr>]"

definition sample_loaded :: "sample_machine state" where
  "sample_loaded =
     \<lparr>s_on_frame = [\<lparr>name = ''Old'', entries = [], enabled = True, default_enabled = False,
                      user_defined = False\<rparr>],
      s_speed_hacks = [16 \<mapsto> 5], host = sample_filled 0\<rparr>"

definition sample_configured_host :: sample_machine where
  "sample_configured_host =
     (sample_filled 0)\<lparr>sm_game_ini := sample_speedhacks_ini, sm_default_ini := sample_global_ini,
                        sm_local_ini := sample_local_ini\<rparr>"

definition sample_configured :: "sample_machine state" where
  "sample_configured =
     \<lparr>s_on_frame = [\<lparr>name = ''Old'', entries = [], enabled = True, default_enabled = False,
                      user_defined = False\<rparr>],
      s_speed_hacks = [16 \<mapsto> 7, 32 \<mapsto> 9], host = sample_configured_host\<rparr>"

definition sample_overwritten :: "sample_machine state" where
  "sample_overwritten =
     \<lparr>s_on_frame = [], s_speed_hacks = [16 \<mapsto> 7], host = sample_configured_host\<rparr>"

section \<open>Facts about the entry codec\<close>

lemma SplitString_nonempty: "SplitString s d \<noteq> []"
  by (induction s) (auto split: list.splits)

lemma hex_digits_8:
  "hex_digits 8 v =
     [hex_char (v div 268435456 mod 16), hex_char (v div 16777216 mod 16),
      hex_char (v div 1048576 mod 16), hex_char (v div 65536 mod 16),
      hex_char (v div 4096 mod 16), hex_char (v div 256 mod 16),
      hex_char (v div 16 mod 16), hex_char (v mod 16)]"
proof -
  have "(8::nat) = Suc (Suc (Suc (Suc (Suc (Suc (Suc (Suc 0)))))))" by simp
  then have "hex_digits 8 v = hex_digits (Suc (Suc (Suc (Suc (Suc (Suc (Suc (Suc 0)))))))) v"
    by (rule arg_cong)
  then show ?thesis by (simp add: div_mult2_eq [symmetric])
qed

lemma TryParse_examples:
  "TryParse ''0x10'' = Some 16" "TryParse ''zz'' = None" "TryParse ''7'' = Some 7"
  "TryParse ''9'' = Some 9" "TryParse ''0x8000'' = Some 32768" "TryParse ''16'' = Some 16"
  "TryParse ''5'' = Some 5" "TryParse ''bad'' = None"
  by (simp_all add: TryParse_def parse_number_def digit_val_def)

lemma replace_first_absent: "a \<notin> set s \<Longrightarrow> replace_first a b s = s"
  by (induction s) auto

lemma SplitString_last: "d \<notin> set f \<Longrightarrow> SplitString f d = [f]"
  by (induction f) auto

lemma SplitString_field: "d \<notin> set f \<Longrightarrow> SplitString (f @ d # rest) d = f # SplitString rest d"
  by (induction f) auto

lemma digit_val_upper:
  "c \<in> set ''0123456789ABCDEF'' \<Longrightarrow> \<exists>d<16. digit_val c = Some d \<and> hex_char d = c"
  by (auto simp: digit_val_def hex_char_def)

lemma hex_digits_msd: "hex_digits (Suc n) v = hex_char (v div 16 ^ n mod 16) # hex_digits n v"
proof (induction n arbitrary: v)
  case 0
  show ?case by simp
next
  case (Suc n)
  have "hex_digits (Suc (Suc n)) v = hex_digits (Suc n) (v div 16) @ [hex_char (v mod 16)]"
    by simp
  also have "\<dots> = (hex_char (v div 16 div 16 ^ n mod 16) # hex_digits n (v div 16)) @ [hex_char (v mod 16)]"
    by (simp only: Suc.IH)
  also have "\<dots> = hex_char (v div 16 ^ Suc n mod 16) # hex_digits (Suc n) v"
    by (simp add: div_mult2_eq)
  finally show ?case .
qed

lemma parse_digits_upper:
  "list_all (\<lambda>c. c \<in> set ''0123456789ABCDEF'') ds \<Longrightarrow>
   \<exists>v. parse_digits 16 acc ds = Some v \<and> v div 16 ^ length ds = acc \<and>
       hex_digits (length ds) v = ds"
proof (induction ds arbitrary: acc)
  case Nil
  show ?case by simp
next
  case (Cons c cs)
  from Cons.prems obtain d where d: "d < 16" "digit_val c = Some d" "hex_char d = c"
    using digit_val_upper [of c] by auto
  from Cons.prems have "list_all (\<lambda>c. c \<in> set ''0123456789ABCDEF'') cs" by simp
  from Cons.IH [OF this, of "16 * acc + d"] obtain v where
    v: "parse_digits 16 (16 * acc + d) cs = Some v" "v div 16 ^ length cs = 16 * acc + d"
       "hex_digits (length cs) v = cs"
    by blast
  have "parse_digits 16 acc (c # cs) = Some v" using d v by simp
  moreover have "v div 16 ^ length (c # cs) = acc"
  proof -
    have "(16::nat) ^ length (c # cs) = 16 ^ length cs * 16" by simp
    then have "v div 16 ^ length (c # cs) = v div 16 ^ length cs div 16"
      by (simp only: div_mult2_eq)
    then show ?thesis using v(2) d(1) by simp
  qed
  moreover have "hex_digits (length (c # cs)) v = c # cs"
    using hex_digits_msd [of "length cs" v] v(2,3) d by simp
  ultimately show ?case by blast
qed

lemma TryParse_format:
  assumes "upper_hex8 ds"
  shows "\<exists>w. TryParse (''0x'' @ ds) = Some w \<and> format_0x08X w = ''0x'' @ ds"
proof -
  from assms have len: "length ds = 8" and ne: "ds \<noteq> []"
    and all: "list_all (\<lambda>c. c \<in> set ''0123456789ABCDEF'') ds"
    by (auto simp: upper_hex8_def)
  from parse_digits_upper [OF all, of 0] len obtain v where
    v: "parse_digits 16 0 ds = Some v" "v div 16 ^ 8 = 0" "hex_digits 8 v = ds"
    by auto
  from v(2) have lt: "v < 2 ^ 32" by (simp add: div_eq_0_iff)
  then have "unat (of_nat v :: u32) = v" by (simp add: unat_of_nat)
  then show ?thesis
    using v lt ne by (simp add: TryParse_def parse_number_def format_0x08X_def)
qed

lemma upper_hex8_no_delim:
  assumes "upper_hex8 ds"
  shows "CHR '':'' \<notin> set (''0x'' @ ds) \<and> CHR ''='' \<notin> set (''0x'' @ ds)"
proof -
  have sub: "set ds \<subseteq> set ''0123456789ABCDEF''"
    using assms unfolding upper_hex8_def list_all_iff by blast
  have "CHR '':'' \<notin> set ''0123456789ABCDEF''" "CHR ''='' \<notin> set ''0123456789ABCDEF''"
    by simp_all
  with sub have "CHR '':'' \<notin> set ds" "CHR ''='' \<notin> set ds" by blast+
  then show ?thesis by simp
qed

lemma type_token_facts:
  assumes "t \<in> {''byte'', ''word'', ''dword''}"
  shows "CHR '':'' \<notin> set t" "CHR ''='' \<notin> set t"
    "find_distance s_patch_type_strings t \<noteq> length s_patch_type_strings"
    "PatchTypeAsString (int (find_distance s_patch_type_strings t)) = Inr t"
  using assms by (auto simp: find_distance_def s_patch_type_strings_def PatchTypeAsString_def)

lemma DeserializeLine_three_fields:
  assumes "CHR '':'' \<notin> set A" "CHR ''='' \<notin> set A" "CHR '':'' \<notin> set V" "CHR ''='' \<notin> set V"
    and "t \<in> {''byte'', ''word'', ''dword''}"
    and "TryParse A = Some wa" "TryParse V = Some wv"
  shows "DeserializeLine (A @ CHR '':'' # t @ CHR '':'' # V) =
      Some (PatchEntry_default\<lparr>address := wa, value' := wv,
              type' := int (find_distance s_patch_type_strings t)\<rparr>)"
proof -
  note tf = type_token_facts [OF assms(5)]
  have "replace_first (CHR ''='') (CHR '':'') (A @ CHR '':'' # t @ CHR '':'' # V)
      = A @ CHR '':'' # t @ CHR '':'' # V"
    by (rule replace_first_absent) (use assms tf in auto)
  moreover have "SplitString (A @ CHR '':'' # t @ CHR '':'' # V) (CHR '':'') = [A, t, V]"
    using assms tf by (simp only: SplitString_field SplitString_last simp_thms)
  ultimately show ?thesis
    unfolding DeserializeLine_def using assms(6,7) tf(3) by (simp add: Let_def)
qed

lemma DeserializeLine_four_fields:
  assumes "CHR '':'' \<notin> set A" "CHR ''='' \<notin> set A" "CHR '':'' \<notin> set V" "CHR ''='' \<notin> set V"
    and "CHR '':'' \<notin> set C" "CHR ''='' \<notin> set C"
    and "t \<in> {''byte'', ''word'', ''dword''}"
    and "TryParse A = Some wa" "TryParse V = Some wv" "TryParse C = Some wc"
  shows "DeserializeLine (A @ CHR '':'' # t @ CHR '':'' # V @ CHR '':'' # C) =
      Some (PatchEntry_default\<lparr>address := wa, value' := wv, comparand := wc,
              conditional := True, type' := int (find_distance s_patch_type_strings t)\<rparr>)"
proof -
  note tf = type_token_facts [OF assms(7)]
  have "replace_first (CHR ''='') (CHR '':'') (A @ CHR '':'' # t @ CHR '':'' # V @ CHR '':'' # C)
      = A @ CHR '':'' # t @ CHR '':'' # V @ CHR '':'' # C"
    by (rule replace_first_absent) (use assms tf in auto)
  moreover have "SplitString (A @ CHR '':'' # t @ CHR '':'' # V @ CHR '':'' # C) (CHR '':'')
      = [A, t, V, C]"
    using assms tf by (simp only: SplitString_field SplitString_last simp_thms)
  ultimately show ?thesis
    unfolding DeserializeLine_def using assms(8,9,10) tf(3) by (simp add: Let_def)
qed

text \<open>
  C6: a line in the canonical serialized form, \<open>0xAAAAAAAA:<type>:0xVVVVVVVV\<close> or the
  same with a fourth field \<open>0xCCCCCCCC\<close> (eight upper-case hexadecimal digits each, the
  type one of \<open>byte\<close>, \<open>word\<close>, \<open>dword\<close>), deserializes to an entry, and
  serializing that entry gives the line back. The entry of a four-field line is
  conditional and its comparand is the fourth field.
\<close>

theorem Serialize_Deserialize_canonical:
  assumes "upper_hex8 a" and "upper_hex8 v" and "upper_hex8 c"
    and "t \<in> {''byte'', ''word'', ''dword''}"
  shows "(\<exists>e. DeserializeLine (''0x'' @ a @ '':'' @ t @ '':0x'' @ v) = Some e \<and>
              conditional e = False \<and>
              SerializeLine e = Inr (''0x'' @ a @ '':'' @ t @ '':0x'' @ v)) \<and>
         (\<exists>e. DeserializeLine (''0x'' @ a @ '':'' @ t @ '':0x'' @ v @ '':0x'' @ c) = Some e \<and>
              conditional e = True \<and>
              format_0x08X (comparand e) = ''0x'' @ c \<and>
              SerializeLine e = Inr (''0x'' @ a @ '':'' @ t @ '':0x'' @ v @ '':0x'' @ c))"
proof -
  define A V C where "A = ''0x'' @ a" and "V = ''0x'' @ v" and "C = ''0x'' @ c"
  have nd: "CHR '':'' \<notin> set A" "CHR ''='' \<notin> set A" "CHR '':'' \<notin> set V" "CHR ''='' \<notin> set V"
    "CHR '':'' \<notin> set C" "CHR ''='' \<notin> set C"
    using upper_hex8_no_delim [OF assms(1)] upper_hex8_no_delim [OF assms(2)]
      upper_hex8_no_delim [OF assms(3)] unfolding A_def V_def C_def by blast+
  note tf = type_token_facts [OF assms(4)]
  obtain wa where wa: "TryParse A = Some wa" "format_0x08X wa = A"
    using TryParse_format [OF assms(1)] unfolding A_def V_def C_def by blast
  obtain wv where wv: "TryParse V = Some wv" "format_0x08X wv = V"
    using TryParse_format [OF assms(2)] unfolding A_def V_def C_def by blast
  obtain wc where wc: "TryParse C = Some wc" "format_0x08X wc = C"
    using TryParse_format [OF assms(3)] unfolding A_def V_def C_def by blast
  note d3 = DeserializeLine_three_fields [OF nd(1-4) assms(4) wa(1) wv(1)]
  note d4 = DeserializeLine_four_fields [OF nd assms(4) wa(1) wv(1) wc(1)]
  have r3: "\<exists>e. DeserializeLine (A @ CHR '':'' # t @ CHR '':'' # V) = Some e \<and>
          conditional e = False \<and>
          SerializeLine e = Inr (A @ CHR '':'' # t @ CHR '':'' # V)"
    unfolding d3 using wa wv tf(4) by (simp add: SerializeLine_def PatchEntry_default_def)
  have r4: "\<exists>e. DeserializeLine (A @ CHR '':'' # t @ CHR '':'' # V @ CHR '':'' # C) = Some e \<and>
          conditional e = True \<and> format_0x08X (comparand e) = C \<and>
          SerializeLine e = Inr (A @ CHR '':'' # t @ CHR '':'' # V @ CHR '':'' # C)"
    unfolding d4 using wa wv wc tf(4) by (simp add: SerializeLine_def PatchEntry_default_def)
  show ?thesis using r3 r4 unfolding A_def V_def C_def by simp
qed

theorem Serialize_Deserialize_canonical_witness:
  "(\<exists>e. DeserializeLine ''0x80001234:dword:0x0000ABCD'' = Some e \<and>
        conditional e = False \<and> SerializeLine e = Inr ''0x80001234:dword:0x0000ABCD'') \<and>
   (\<exists>e. DeserializeLine ''0x80001234:dword:0x0000ABCD:0x000000FF'' = Some e \<and>
        conditional e = True \<and> format_0x08X (comparand e) = ''0x000000FF'' \<and>
        SerializeLine e = Inr ''0x80001234:dword:0x0000ABCD:0x000000FF'')"
  using Serialize_Deserialize_canonical [of "''80001234''" "''0000ABCD''" "''000000FF''" "''dword''"]
  by (simp add: upper_hex8_def)

text \<open>
  C7: \<open>DeserializeLine\<close> returns nothing exactly when, after the first \<open>=\<close> has become
  \<open>:\<close> and the line has been split on \<open>:\<close>, there are fewer than three fields, or
  field 0 or field 2 fails to parse, or field 1 is none of \<open>byte\<close>, \<open>word\<close>,
  \<open>dword\<close>, or a fourth field is there and fails to parse. In every other case it
  returns an entry with the parsed address and value and the type named by field 1; the
  entry is conditional exactly when there is a fourth field, which then is its comparand.
\<close>

theorem DeserializeLine_nothing_iff:
  "(let items = SplitString (replace_first (CHR ''='') (CHR '':'') line) (CHR '':'');
        bad = (length items < 3 \<or> TryParse (items ! 0) = None \<or> TryParse (items ! 2) = None
               \<or> items ! 1 \<notin> {''byte'', ''word'', ''dword''}
               \<or> (4 \<le> length items \<and> TryParse (items ! 3) = None))
    in (DeserializeLine line = None \<longleftrightarrow> bad) \<and>
       (\<not> bad \<longrightarrow>
          (\<exists>e. DeserializeLine line = Some e \<and>
               Some (address e) = TryParse (items ! 0) \<and>
               Some (value' e) = TryParse (items ! 2) \<and>
               PatchTypeAsString (type' e) = Inr (items ! 1) \<and>
               (conditional e \<longleftrightarrow> 4 \<le> length items) \<and>
               (if 4 \<le> length items then Some (comparand e) = TryParse (items ! 3)
                else comparand e = comparand PatchEntry_default))))"
proof -
  define items where "items = SplitString (replace_first (CHR ''='') (CHR '':'') line) (CHR '':'')"
  have ty: "find_distance s_patch_type_strings x = length s_patch_type_strings \<longleftrightarrow> x \<notin> {''byte'', ''word'', ''dword''}" for x
    by (auto simp: find_distance_def s_patch_type_strings_def)
  have ty2: "x \<in> {''byte'', ''word'', ''dword''} \<Longrightarrow> PatchTypeAsString (int (find_distance s_patch_type_strings x)) = Inr x" for x
    by (auto simp: find_distance_def s_patch_type_strings_def PatchTypeAsString_def)
  show ?thesis
    unfolding Let_def items_def [symmetric] DeserializeLine_def ty
    by (auto simp: ty2 PatchEntry_default_def split: option.splits)
qed

theorem DeserializeLine_nothing_iff_witness:
  "DeserializeLine ''0x10:word:zz'' = None \<and>
   (\<exists>e. DeserializeLine ''0x10=word:7:9'' = Some e \<and> address e = 16 \<and> value' e = 7 \<and>
        PatchTypeAsString (type' e) = Inr ''word'' \<and> conditional e \<and> comparand e = 9)"
  using DeserializeLine_nothing_iff [of "''0x10:word:zz''"]
    DeserializeLine_nothing_iff [of "''0x10=word:7:9''"]
  by (auto simp: Let_def TryParse_examples split: if_splits)

section \<open>Facts about the applier\<close>

lemma IsStackSane_iff:
  "IsStackSane P m = Inr True \<longleftrightarrow>
     MSR_DR P m \<and> MSR_IR P m \<and> HostIsRAMAddress P m (GPR P m 1) \<and>
     GPR P m 1 < HostRead_U32 P m (GPR P m 1) \<and>
     HostIsRAMAddress P m (HostRead_U32 P m (GPR P m 1)) \<and>
     HostIsRAMAddress P m (HostRead_U32 P m (GPR P m 1) + 4) \<and>
     HostIsInstructionRAMAddress P m (HostRead_U32 P m (HostRead_U32 P m (GPR P m 1) + 4)) \<and>
     HostRead_Instruction P m (HostRead_U32 P m (HostRead_U32 P m (GPR P m 1) + 4)) \<noteq> 0"
  by (auto simp: IsStackSane_def Let_def not_le)

lemma IsStackSane_total:
  "MSR_DR P m \<Longrightarrow> MSR_IR P m \<Longrightarrow> IsStackSane P m = Inr True \<or> IsStackSane P m = Inr False"
  by (auto simp: IsStackSane_def Let_def)

text \<open>
  C1: \<open>ApplyFramePatches\<close> returns false and leaves the whole state (the patch list, the
  speed-hack table, the CPU and the guest memory) as it was whenever the data-translation
  or the instruction-translation flag is off, whatever the stack holds, or the
  stack-sanity check fails, as it does when the stack pointer is not a RAM address. It
  returns true exactly when both flags are on and the check passes. It never trips the
  assertion of \<open>IsStackSane\<close>, and it never changes the patch list or the table.
\<close>

theorem ApplyFramePatches_gate:
  "(\<not> MSR_DR P (host s) \<or> \<not> MSR_IR P (host s) \<or> IsStackSane P (host s) = Inr False \<longrightarrow>
      ApplyFramePatches P C s = Inr (False, s)) \<and>
   (MSR_DR P (host s) \<and> MSR_IR P (host s) \<and> \<not> HostIsRAMAddress P (host s) (GPR P (host s) 1) \<longrightarrow>
      ApplyFramePatches P C s = Inr (False, s)) \<and>
   ((\<exists>s'. ApplyFramePatches P C s = Inr (True, s')) \<longleftrightarrow>
      MSR_DR P (host s) \<and> MSR_IR P (host s) \<and> IsStackSane P (host s) = Inr True) \<and>
   (\<exists>r s'. ApplyFramePatches P C s = Inr (r, s') \<and>
        s_on_frame s' = s_on_frame s \<and> s_speed_hacks s' = s_speed_hacks s)"
proof -
  have a: "\<not> MSR_DR P (host s) \<or> \<not> MSR_IR P (host s) \<or> IsStackSane P (host s) = Inr False \<Longrightarrow>
      ApplyFramePatches P C s = Inr (False, s)"
    by (auto simp: ApplyFramePatches_def)
  have b: "MSR_DR P (host s) \<and> MSR_IR P (host s) \<and> \<not> HostIsRAMAddress P (host s) (GPR P (host s) 1) \<Longrightarrow>
      ApplyFramePatches P C s = Inr (False, s)"
    by (auto simp: ApplyFramePatches_def IsStackSane_def Let_def)
  have c: "(\<exists>s'. ApplyFramePatches P C s = Inr (True, s')) \<longleftrightarrow>
      MSR_DR P (host s) \<and> MSR_IR P (host s) \<and> IsStackSane P (host s) = Inr True"
    using IsStackSane_total [of P "host s"]
    by (auto simp: ApplyFramePatches_def Let_def split: sum.splits)
  have d: "\<exists>r s'. ApplyFramePatches P C s = Inr (r, s') \<and>
        s_on_frame s' = s_on_frame s \<and> s_speed_hacks s' = s_speed_hacks s"
    using IsStackSane_total [of P "host s"]
    by (auto simp: ApplyFramePatches_def Let_def split: sum.splits)
  from a b c d show ?thesis by blast
qed

lemma IsStackSane_sample: "IsStackSane sample_PowerPC (sample_filled 1) = Inr True"
  by (simp add: IsStackSane_def sample_PowerPC_def sample_read32_def sample_filled_def)

theorem ApplyFramePatches_gate_witness:
  "ApplyFramePatches sample_PowerPC sample_Collaborators
      \<lparr>s_on_frame = [], s_speed_hacks = Map.empty, host = (sample_filled 1)\<lparr>dr := False\<rparr>\<rparr>
     = Inr (False, \<lparr>s_on_frame = [], s_speed_hacks = Map.empty, host = (sample_filled 1)\<lparr>dr := False\<rparr>\<rparr>) \<and>
   ApplyFramePatches sample_PowerPC sample_Collaborators
      \<lparr>s_on_frame = [], s_speed_hacks = Map.empty, host = (sample_filled 1)\<lparr>ram := (\<lambda>a. False)\<rparr>\<rparr>
     = Inr (False, \<lparr>s_on_frame = [], s_speed_hacks = Map.empty, host = (sample_filled 1)\<lparr>ram := (\<lambda>a. False)\<rparr>\<rparr>) \<and>
   (\<exists>s'. ApplyFramePatches sample_PowerPC sample_Collaborators
      \<lparr>s_on_frame = [], s_speed_hacks = Map.empty, host = sample_filled 1\<rparr> = Inr (True, s'))"
  using ApplyFramePatches_gate [of sample_PowerPC
      "\<lparr>s_on_frame = [], s_speed_hacks = Map.empty, host = (sample_filled 1)\<lparr>dr := False\<rparr>\<rparr>" sample_Collaborators]
    ApplyFramePatches_gate [of sample_PowerPC
      "\<lparr>s_on_frame = [], s_speed_hacks = Map.empty, host = (sample_filled 1)\<lparr>ram := (\<lambda>a. False)\<rparr>\<rparr>" sample_Collaborators]
    ApplyFramePatches_gate [of sample_PowerPC
      "\<lparr>s_on_frame = [], s_speed_hacks = Map.empty, host = sample_filled 1\<rparr>" sample_Collaborators]
    IsStackSane_sample
  by (simp add: sample_PowerPC_def sample_filled_def)


lemma ucast_u8_mod: "(ucast (w :: u32) :: u8) = of_nat (unat w mod 2 ^ 8)"
proof -
  have "unat (ucast w :: u8) = unat w mod 2 ^ 8"
    by (simp add: unsigned_ucast_eq take_bit_eq_mod)
  then have "(of_nat (unat (ucast w :: u8)) :: u8) = of_nat (unat w mod 2 ^ 8)" by simp
  then show ?thesis by simp
qed

lemma ucast_u16_mod: "(ucast (w :: u32) :: u16) = of_nat (unat w mod 2 ^ 16)"
proof -
  have "unat (ucast w :: u16) = unat w mod 2 ^ 16"
    by (simp add: unsigned_ucast_eq take_bit_eq_mod)
  then have "(of_nat (unat (ucast w :: u16)) :: u16) = of_nat (unat w mod 2 ^ 16)" by simp
  then show ?thesis by simp
qed

lemma foldl_concat_map:
  "foldl (\<lambda>a x. if p x then foldl f a (g x) else a) a xs = foldl f a (concat (map g (filter p xs)))"
  by (induction xs arbitrary: a) auto

text \<open>
  C2: \<open>ApplyPatches\<close> runs the entries of the enabled patches, in list order, and no
  others. A byte, word or dword entry that is conditional writes its value, truncated to
  its width, only if the memory read at that width equals its comparand truncated to
  that width, and otherwise leaves the memory as it is; an unconditional entry always
  writes. An entry of any other type changes nothing, whatever the host's reads return.
\<close>

theorem ApplyPatches_conditional_write:
  "ApplyPatches P patches m =
     foldl (ApplyPatches_entry P) m (concat (map entries (filter enabled patches))) \<and>
   (type' e = Patch8Bit \<longrightarrow>
      ApplyPatches_entry P m e =
        (if conditional e \<and> HostRead_U8 P m (address e) \<noteq> of_nat (unat (comparand e) mod 2 ^ 8)
         then m
         else HostWrite_U8 P (of_nat (unat (value' e) mod 2 ^ 8)) (address e) m)) \<and>
   (type' e = Patch16Bit \<longrightarrow>
      ApplyPatches_entry P m e =
        (if conditional e \<and> HostRead_U16 P m (address e) \<noteq> of_nat (unat (comparand e) mod 2 ^ 16)
         then m
         else HostWrite_U16 P (of_nat (unat (value' e) mod 2 ^ 16)) (address e) m)) \<and>
   (type' e = Patch32Bit \<longrightarrow>
      ApplyPatches_entry P m e =
        (if conditional e \<and> HostRead_U32 P m (address e) \<noteq> comparand e
         then m
         else HostWrite_U32 P (value' e) (address e) m)) \<and>
   (\<not> known_type (type' e) \<longrightarrow> ApplyPatches_entry P m e = m)"
proof -
  have "ApplyPatches P patches m =
     foldl (ApplyPatches_entry P) m (concat (map entries (filter enabled patches)))"
    unfolding ApplyPatches_def by (rule foldl_concat_map)
  then show ?thesis
    by (simp add: ApplyPatches_entry_def Let_def ucast_u8_mod ucast_u16_mod
        known_type_def Patch8Bit_def Patch16Bit_def Patch32Bit_def)
qed

theorem ApplyPatches_conditional_write_witness:
  "ApplyPatches sample_PowerPC
     [\<lparr>name = ''A'', entries = [\<lparr>type' = Patch32Bit, address = 0x8000, value' = 1, comparand = 0, conditional = True\<rparr>],
       enabled = True, default_enabled = False, user_defined = False\<rparr>] (sample_filled 0)
     = (sample_filled 0)\<lparr>mem := (mem (sample_filled 0))(0x8000 := 0, 0x8001 := 0, 0x8002 := 0, 0x8003 := 1)\<rparr> \<and>
   ApplyPatches sample_PowerPC
     [\<lparr>name = ''A'', entries = [\<lparr>type' = Patch32Bit, address = 0x8000, value' = 1, comparand = 0, conditional = True\<rparr>],
       enabled = True, default_enabled = False, user_defined = False\<rparr>] (sample_filled 1)
     = sample_filled 1 \<and>
   ApplyPatches_entry sample_PowerPC (sample_filled 1)
     \<lparr>type' = Patch8Bit, address = 0x8000, value' = 0x1FF, comparand = 0x101, conditional = True\<rparr>
     = (sample_filled 1)\<lparr>mem := (mem (sample_filled 1))(0x8000 := 0xFF)\<rparr> \<and>
   ApplyPatches_entry sample_PowerPC (sample_filled 1)
     \<lparr>type' = Patch16Bit, address = 0x8000, value' = 0x12345, comparand = 0x70101, conditional = True\<rparr>
     = (sample_filled 1)\<lparr>mem := (mem (sample_filled 1))(0x8000 := 0x23, 0x8001 := 0x45)\<rparr> \<and>
   ApplyPatches_entry sample_PowerPC (sample_filled 1)
     \<lparr>type' = 7, address = 0x8000, value' = 1, comparand = 0, conditional = False\<rparr>
     = sample_filled 1"
proof -
  let ?p = "[\<lparr>name = ''A'', entries = [\<lparr>type' = Patch32Bit, address = 0x8000, value' = 1, comparand = 0, conditional = True\<rparr>],
       enabled = True, default_enabled = False, user_defined = False\<rparr>]"
  let ?e32 = "\<lparr>type' = Patch32Bit, address = 0x8000, value' = 1, comparand = 0, conditional = True\<rparr>"
  let ?e8 = "\<lparr>type' = Patch8Bit, address = 0x8000, value' = 0x1FF, comparand = 0x101, conditional = True\<rparr>"
  let ?e16 = "\<lparr>type' = Patch16Bit, address = 0x8000, value' = 0x12345, comparand = 0x70101, conditional = True\<rparr>"
  let ?e7 = "\<lparr>type' = 7, address = 0x8000, value' = 1, comparand = 0, conditional = False\<rparr>"
  have a: "ApplyPatches sample_PowerPC ?p (sample_filled 0)
     = (sample_filled 0)\<lparr>mem := (mem (sample_filled 0))(0x8000 := 0, 0x8001 := 0, 0x8002 := 0, 0x8003 := 1)\<rparr>"
    using ApplyPatches_conditional_write [where P = sample_PowerPC and patches = ?p
        and m = "sample_filled 0" and e = ?e32]
    by (simp add: sample_PowerPC_def sample_read32_def sample_filled_def)
  have b: "ApplyPatches sample_PowerPC ?p (sample_filled 1) = sample_filled 1"
    using ApplyPatches_conditional_write [where P = sample_PowerPC and patches = ?p
        and m = "sample_filled 1" and e = ?e32]
    by (simp add: sample_PowerPC_def sample_read32_def sample_filled_def)
  have c: "ApplyPatches_entry sample_PowerPC (sample_filled 1) ?e8
     = (sample_filled 1)\<lparr>mem := (mem (sample_filled 1))(0x8000 := 0xFF)\<rparr>"
    using ApplyPatches_conditional_write [where P = sample_PowerPC and patches = "[]"
        and m = "sample_filled 1" and e = ?e8]
    by (simp add: sample_PowerPC_def sample_filled_def ApplyPatches_entry_def
        Patch8Bit_def Patch16Bit_def Patch32Bit_def)
  have n: "(9029 :: u8) = 69" by simp
  have d: "ApplyPatches_entry sample_PowerPC (sample_filled 1) ?e16
     = (sample_filled 1)\<lparr>mem := (mem (sample_filled 1))(0x8000 := 0x23, 0x8001 := 0x45)\<rparr>"
    using ApplyPatches_conditional_write [where P = sample_PowerPC and patches = "[]"
        and m = "sample_filled 1" and e = ?e16]
    by (simp add: sample_PowerPC_def sample_read16_def sample_filled_def ApplyPatches_entry_def
        Patch8Bit_def Patch16Bit_def Patch32Bit_def n)
  have e: "ApplyPatches_entry sample_PowerPC (sample_filled 1) ?e7 = sample_filled 1"
    using ApplyPatches_conditional_write [where P = sample_PowerPC and patches = "[]"
        and m = "sample_filled 1" and e = ?e7]
    by (simp add: known_type_def Patch8Bit_def Patch16Bit_def Patch32Bit_def)
  from a b c d e show ?thesis by (intro conjI)
qed

section \<open>Facts about the speed-hack table\<close>

lemma foldl_filter_skip:
  assumes "\<And>t x. \<not> p x \<Longrightarrow> f t x = t"
  shows "foldl f t xs = foldl f t (filter p xs)"
  using assms by (induction xs arbitrary: t) auto

lemma foldl_keeps_None:
  assumes "\<And>t x. x \<in> set xs \<Longrightarrow> t a = None \<Longrightarrow> f t x a = None" and "t a = None"
  shows "foldl f t xs a = None"
  using assms by (induction xs arbitrary: t) auto

text \<open>
  C9: the lookup of an address that is not in the table returns 0. A row whose key or
  whose value fails to parse leaves the table as it is, and the loaded table is the one
  that the remaining rows give. So the lookup also returns 0 for an address that was not
  in the table before and that only rows with an unparsable value name.
\<close>

theorem SpeedHack_lookup_absent:
  "(table addr = None \<longrightarrow> GetSpeedhackCycles table addr = 0) \<and>
   (TryParse key = None \<or> TryParse (Get ini sec key ''BOGUS'') = None \<longrightarrow>
      LoadSpeedhacks_key sec ini table key = table) \<and>
   LoadSpeedhacks sec ini table =
     foldl (LoadSpeedhacks_key sec ini) table
       (filter (\<lambda>key. Get ini sec key ''BOGUS'' \<noteq> ''BOGUS'' \<and> TryParse key \<noteq> None \<and>
                       TryParse (Get ini sec key ''BOGUS'') \<noteq> None)
          (GetKeys ini sec)) \<and>
   (table addr = None \<and>
    (\<forall>key \<in> set (GetKeys ini sec).
        TryParse key = Some addr \<longrightarrow> TryParse (Get ini sec key ''BOGUS'') = None) \<longrightarrow>
      GetSpeedhackCycles (LoadSpeedhacks sec ini table) addr = 0)"
proof -
  have a: "table addr = None \<longrightarrow> GetSpeedhackCycles table addr = 0"
    by (simp add: GetSpeedhackCycles_def)
  have a': "TryParse key = None \<or> TryParse (Get ini sec key ''BOGUS'') = None \<longrightarrow>
      LoadSpeedhacks_key sec ini table key = table"
    by (auto simp: LoadSpeedhacks_key_def Let_def split: option.splits)
  have b: "LoadSpeedhacks sec ini table =
     foldl (LoadSpeedhacks_key sec ini) table
       (filter (\<lambda>key. Get ini sec key ''BOGUS'' \<noteq> ''BOGUS'' \<and> TryParse key \<noteq> None \<and>
                       TryParse (Get ini sec key ''BOGUS'') \<noteq> None)
          (GetKeys ini sec))"
    unfolding LoadSpeedhacks_def
    by (rule foldl_filter_skip) (auto simp: LoadSpeedhacks_key_def Let_def split: option.splits)
  have c: "GetSpeedhackCycles (LoadSpeedhacks sec ini table) addr = 0"
    if none: "table addr = None"
      and bad: "\<forall>key \<in> set (GetKeys ini sec).
        TryParse key = Some addr \<longrightarrow> TryParse (Get ini sec key ''BOGUS'') = None"
  proof -
    have "foldl (LoadSpeedhacks_key sec ini) table (GetKeys ini sec) addr = None"
    proof (rule foldl_keeps_None [where a = addr and t = table])
      show "table addr = None" by (rule none)
    next
      fix t :: speed_hacks and key
      assume "key \<in> set (GetKeys ini sec)" and "t addr = None"
      with bad show "LoadSpeedhacks_key sec ini t key addr = None"
        by (auto simp: LoadSpeedhacks_key_def Let_def split: option.splits)
    qed
    then show ?thesis by (simp add: LoadSpeedhacks_def GetSpeedhackCycles_def)
  qed
  from a a' b c show ?thesis by blast
qed

lemma sample_speedhacks_rows:
  "GetKeys sample_speedhacks_ini ''Speedhacks'' = [''0x10'', ''0x8000'', ''zz'']"
  "Get sample_speedhacks_ini ''Speedhacks'' ''0x10'' ''BOGUS'' = ''5''"
  "Get sample_speedhacks_ini ''Speedhacks'' ''0x8000'' ''BOGUS'' = ''bad''"
  "Get sample_speedhacks_ini ''Speedhacks'' ''zz'' ''BOGUS'' = ''7''"
  by (simp_all add: sample_speedhacks_ini_def GetKeys_def Get_def)

theorem SpeedHack_lookup_absent_witness:
  "GetSpeedhackCycles (LoadSpeedhacks ''Speedhacks'' sample_speedhacks_ini Map.empty) 0x8000 = 0 \<and>
   LoadSpeedhacks ''Speedhacks'' sample_speedhacks_ini Map.empty = [0x10 \<mapsto> 5]"
  using SpeedHack_lookup_absent [where table = Map.empty and addr = "0x8000"
      and sec = "''Speedhacks''" and ini = sample_speedhacks_ini and key = "''zz''"]
  by (simp add: sample_speedhacks_rows TryParse_examples LoadSpeedhacks_key_def
      GetSpeedhackCycles_def)


section \<open>Facts about the config merger\<close>

lemma drop_Suc0_tl: "drop (Suc 0) line = tl line"
  by (cases line) simp_all

lemma LoadPatchSection_line_header:
  "line \<noteq> [] \<Longrightarrow> line ! 0 = CHR ''$'' \<Longrightarrow>
   LoadPatchSection_line il (ps, cur) line =
     (if name cur \<noteq> [] then ps @ [cur] else ps,
      cur\<lparr>entries := [], name := tl line, user_defined := il\<rparr>)"
  by (simp add: LoadPatchSection_line_def drop_Suc0_tl)

lemma DeserializeLine_empty: "DeserializeLine [] = None"
  by (simp add: DeserializeLine_def)

lemma LoadPatchSection_line_empty: "LoadPatchSection_line il (ps, cur) [] = (ps, cur)"
  by (simp add: LoadPatchSection_line_def)

lemma LoadPatchSection_line_body:
  "line = [] \<or> line ! 0 \<noteq> CHR ''$'' \<Longrightarrow>
   LoadPatchSection_line il (ps, cur) line =
     (ps, cur\<lparr>entries := entries cur @ (case DeserializeLine line of None \<Rightarrow> [] | Some e \<Rightarrow> [e])\<rparr>)"
  by (cases "line = []") (auto simp: LoadPatchSection_line_def DeserializeLine_empty split: option.splits)

lemma scan_body:
  "\<forall>l \<in> set b. l = [] \<or> l ! 0 \<noteq> CHR ''$'' \<Longrightarrow>
   foldl (LoadPatchSection_line il) (ps, cur) b =
     (ps, cur\<lparr>entries := entries cur @ List.map_filter DeserializeLine b\<rparr>)"
proof (induction b arbitrary: cur)
  case Nil
  show ?case by (simp add: List.map_filter_simps)
next
  case (Cons l b)
  then show ?case
    by (simp add: LoadPatchSection_line_body List.map_filter_simps split: option.splits)
qed

lemma GetLines_SetLines:
  "GetLines (SetLines ini sec ls) sec' = (if sec' = sec then ls else GetLines ini sec')"
  by (simp add: GetLines_def SetLines_def)

lemma ReadEnabledAndDisabled_SetLines:
  "ReadEnabledAndDisabled (SetLines ini sec ls) sec ps = ReadEnabledAndDisabled ini sec ps"
  by (simp add: ReadEnabledAndDisabled_def ReadEnabledOrDisabled_def GetLines_SetLines)

lemma scan_before_first_header:
  "fst (foldl (LoadPatchSection_line il) (ps, Patch_default) ls) =
     fst (foldl (LoadPatchSection_line il) (ps, Patch_default)
            (dropWhile (\<lambda>l. l = [] \<or> l ! 0 \<noteq> CHR ''$'') ls)) \<and>
   (let cur = snd (foldl (LoadPatchSection_line il) (ps, Patch_default) ls);
        cur' = snd (foldl (LoadPatchSection_line il) (ps, Patch_default)
                 (dropWhile (\<lambda>l. l = [] \<or> l ! 0 \<noteq> CHR ''$'') ls))
    in (name cur = [] \<and> name cur' = []) \<or> cur = cur')"
proof -
  let ?P = "\<lambda>l. l = [] \<or> l ! 0 \<noteq> CHR ''$''"
  let ?f = "foldl (LoadPatchSection_line il)"
  have split: "ls = takeWhile ?P ls @ dropWhile ?P ls" by simp
  have pre: "?f (ps, Patch_default) (takeWhile ?P ls) =
      (ps, Patch_default\<lparr>entries := entries Patch_default @
             List.map_filter DeserializeLine (takeWhile ?P ls)\<rparr>)"
    by (rule scan_body) (auto dest: set_takeWhileD)
  have whole: "?f (ps, Patch_default) ls =
      ?f (ps, Patch_default\<lparr>entries := entries Patch_default @
             List.map_filter DeserializeLine (takeWhile ?P ls)\<rparr>) (dropWhile ?P ls)"
    by (subst split, simp only: foldl_append pre)
  show ?thesis
  proof (cases "dropWhile ?P ls")
    case Nil
    have w: "?f (ps, Patch_default) ls =
        (ps, Patch_default\<lparr>entries := entries Patch_default @
             List.map_filter DeserializeLine (takeWhile ?P ls)\<rparr>)"
      using whole unfolding Nil by simp
    have d: "?f (ps, Patch_default) (dropWhile ?P ls) = (ps, Patch_default)"
      unfolding Nil by simp
    show ?thesis unfolding w d by (simp add: Patch_default_def)
  next
    case (Cons h r)
    then have "\<not> ?P h" using hd_dropWhile [of ?P ls] by simp
    then have h: "h \<noteq> []" "h ! 0 = CHR ''$''" by auto
    have st: "LoadPatchSection_line il
        (ps, Patch_default\<lparr>entries := entries Patch_default @
             List.map_filter DeserializeLine (takeWhile ?P ls)\<rparr>) h =
        LoadPatchSection_line il (ps, Patch_default) h"
      by (simp add: LoadPatchSection_line_header [OF h] Patch_default_def)
    have w: "?f (ps, Patch_default) ls = ?f (LoadPatchSection_line il (ps, Patch_default) h) r"
      using whole unfolding Cons by (simp add: st)
    have d: "?f (ps, Patch_default) (dropWhile ?P ls) =
        ?f (LoadPatchSection_line il (ps, Patch_default) h) r"
      unfolding Cons by simp
    show ?thesis unfolding w d by simp
  qed
qed

lemma ReadEnabledAndDisabled_map:
  "ReadEnabledAndDisabled ini sec xs =
     map (\<lambda>p. p\<lparr>enabled :=
                 (if CHR ''$'' # name p \<in> set (GetLines ini (sec @ ''_Disabled'')) then False
                  else if CHR ''$'' # name p \<in> set (GetLines ini (sec @ ''_Enabled'')) then True
                  else enabled p)\<rparr>) xs"
  by (simp add: ReadEnabledAndDisabled_def ReadEnabledOrDisabled_def)

lemma scan_user_defined:
  assumes "name cur \<noteq> [] \<longrightarrow> user_defined cur = il"
  shows "\<exists>a cur'. foldl (LoadPatchSection_line il) (ps, cur) ls = (ps @ a, cur') \<and>
           (\<forall>p \<in> set a. user_defined p = il) \<and> (name cur' \<noteq> [] \<longrightarrow> user_defined cur' = il)"
proof (induction ls rule: rev_induct)
  case Nil
  show ?case using assms by simp
next
  case (snoc l ls)
  then obtain a cur' where IH: "foldl (LoadPatchSection_line il) (ps, cur) ls = (ps @ a, cur')"
    "\<forall>p \<in> set a. user_defined p = il" "name cur' \<noteq> [] \<longrightarrow> user_defined cur' = il"
    by blast
  show ?case
  proof (cases "l \<noteq> [] \<and> l ! 0 = CHR ''$''")
    case True
    then show ?thesis using IH by (simp add: LoadPatchSection_line_header)
  next
    case False
    then have "l = [] \<or> l ! 0 \<noteq> CHR ''$''" by blast
    then show ?thesis using IH by (simp add: LoadPatchSection_line_body)
  qed
qed

lemma LoadPatchSection_ini_shape:
  "\<exists>new. (\<forall>p \<in> set new. user_defined p = il) \<and>
     LoadPatchSection_ini sec ini ig il ps =
       (if ig then map (\<lambda>patch. patch\<lparr>default_enabled := enabled patch\<rparr>)
                    (ReadEnabledAndDisabled ini sec (ps @ new))
        else ReadEnabledAndDisabled ini sec (ps @ new))"
proof -
  have "name Patch_default \<noteq> [] \<longrightarrow> user_defined Patch_default = il"
    by (simp add: Patch_default_def)
  from scan_user_defined [OF this, of ps "GetLines ini sec"]
  obtain a cur' where sc:
    "foldl (LoadPatchSection_line il) (ps, Patch_default) (GetLines ini sec) = (ps @ a, cur')"
    "\<forall>p \<in> set a. user_defined p = il" "name cur' \<noteq> [] \<longrightarrow> user_defined cur' = il"
    by blast
  show ?thesis
  proof (cases "name cur' \<noteq> [] \<and> entries cur' \<noteq> []")
    case True
    have "\<forall>p \<in> set (a @ [cur']). user_defined p = il" using sc(2,3) True by simp
    moreover have "LoadPatchSection_ini sec ini ig il ps =
       (if ig then map (\<lambda>patch. patch\<lparr>default_enabled := enabled patch\<rparr>)
                    (ReadEnabledAndDisabled ini sec (ps @ (a @ [cur'])))
        else ReadEnabledAndDisabled ini sec (ps @ (a @ [cur'])))"
      using True by (simp add: LoadPatchSection_ini_def sc(1) Let_def)
    ultimately show ?thesis by blast
  next
    case False
    have "LoadPatchSection_ini sec ini ig il ps =
       (if ig then map (\<lambda>patch. patch\<lparr>default_enabled := enabled patch\<rparr>)
                    (ReadEnabledAndDisabled ini sec (ps @ a))
        else ReadEnabledAndDisabled ini sec (ps @ a))"
      using False by (auto simp: LoadPatchSection_ini_def sc(1) Let_def)
    with sc(2) show ?thesis by blast
  qed
qed

lemma DeserializeLine_samples:
  "DeserializeLine ''0x80001234:dword:0x00000001'' = Some sample_entry"
  "DeserializeLine ''0x80000000:byte:0x00000001'' =
     Some \<lparr>type' = Patch8Bit, address = 0x80000000, value' = 1, comparand = 0, conditional = False\<rparr>"
  by (simp_all add: DeserializeLine_def TryParse_def parse_number_def digit_val_def
      find_distance_def s_patch_type_strings_def PatchEntry_default_def sample_entry_def
      Patch8Bit_def Patch32Bit_def)

lemma SerializeLine_sample: "SerializeLine sample_entry = Inr ''0x80001234:dword:0x00000001''"
  by (simp add: SerializeLine_def PatchTypeAsString_def s_patch_type_strings_def
      format_0x08X_def hex_char_def hex_digits_8 sample_entry_def Patch32Bit_def)

lemma sample_global_pass:
  "LoadPatchSection_ini ''OnFrame'' sample_global_ini True False [] =
     [\<lparr>name = ''Foo'', entries = [sample_entry], enabled = True, default_enabled = True,
        user_defined = False\<rparr>]"
  by (simp add: LoadPatchSection_ini_def LoadPatchSection_line_def GetLines_def
      sample_global_ini_def DeserializeLine_samples Patch_default_def
      ReadEnabledAndDisabled_def ReadEnabledOrDisabled_def)

lemma sample_merge:
  "LoadPatchSection ''OnFrame'' [] sample_global_ini sample_local_ini =
     [\<lparr>name = ''Foo'', entries = [sample_entry], enabled = False, default_enabled = True,
        user_defined = False\<rparr>,
      \<lparr>name = ''Bar'', entries = [], enabled = False, default_enabled = False,
        user_defined = True\<rparr>]"
  unfolding LoadPatchSection_def sample_global_pass
  by (simp add: LoadPatchSection_ini_def LoadPatchSection_line_def GetLines_def
      sample_local_ini_def Patch_default_def
      ReadEnabledAndDisabled_def ReadEnabledOrDisabled_def)

text \<open>
  C5: in the scan of one source, a header line (one that begins with \<open>$\<close>) appends the
  patch in progress to the output list exactly when its name is not empty, whether or
  not it has entries, and then starts a new patch named by the rest of the line. After
  the last line, the patch in progress is appended exactly when its name is not empty
  and it has at least one entry. (The overrides and the snapshot that follow change
  neither names nor entries nor \<open>user_defined\<close>.)
\<close>

theorem LoadPatchSection_flush_asymmetry:
  "(case foldl (LoadPatchSection_line il) st ls of
      (ps, cur) \<Rightarrow>
        line \<noteq> [] \<and> line ! 0 = CHR ''$'' \<longrightarrow>
          foldl (LoadPatchSection_line il) st (ls @ [line]) =
            (if name cur \<noteq> [] then ps @ [cur] else ps,
             cur\<lparr>entries := [], name := tl line, user_defined := il\<rparr>)) \<and>
   (case foldl (LoadPatchSection_line il) (patches, Patch_default) (GetLines ini sec) of
      (ps, cur) \<Rightarrow>
        map (\<lambda>p. (name p, entries p, user_defined p)) (LoadPatchSection_ini sec ini ig il patches) =
        map (\<lambda>p. (name p, entries p, user_defined p))
          (if name cur \<noteq> [] \<and> entries cur \<noteq> [] then ps @ [cur] else ps))"
proof -
  have a: "(case foldl (LoadPatchSection_line il) st ls of
      (ps, cur) \<Rightarrow>
        line \<noteq> [] \<and> line ! 0 = CHR ''$'' \<longrightarrow>
          foldl (LoadPatchSection_line il) st (ls @ [line]) =
            (if name cur \<noteq> [] then ps @ [cur] else ps,
             cur\<lparr>entries := [], name := tl line, user_defined := il\<rparr>))"
    by (cases "foldl (LoadPatchSection_line il) st ls") (simp add: LoadPatchSection_line_header)
  have keep: "map (\<lambda>p. (name p, entries p, user_defined p))
        (if g then map (\<lambda>patch. patch\<lparr>default_enabled := enabled patch\<rparr>)
                     (ReadEnabledAndDisabled ini sec xs)
         else ReadEnabledAndDisabled ini sec xs) =
      map (\<lambda>p. (name p, entries p, user_defined p)) xs" for g xs
    by (simp add: ReadEnabledAndDisabled_def ReadEnabledOrDisabled_def comp_def)
  have b: "(case foldl (LoadPatchSection_line il) (patches, Patch_default) (GetLines ini sec) of
      (ps, cur) \<Rightarrow>
        map (\<lambda>p. (name p, entries p, user_defined p)) (LoadPatchSection_ini sec ini ig il patches) =
        map (\<lambda>p. (name p, entries p, user_defined p))
          (if name cur \<noteq> [] \<and> entries cur \<noteq> [] then ps @ [cur] else ps))"
    unfolding LoadPatchSection_ini_def
    by (cases "foldl (LoadPatchSection_line il) (patches, Patch_default) (GetLines ini sec)")
      (simp only: prod.case Let_def keep)
  from a b show ?thesis by (rule conjI)
qed

theorem LoadPatchSection_flush_asymmetry_witness:
  "foldl (LoadPatchSection_line True) ([], Patch_default) [''$Bar'', ''$Baz''] =
     ([Patch_default\<lparr>name := ''Bar'', user_defined := True\<rparr>],
      Patch_default\<lparr>name := ''Baz'', user_defined := True\<rparr>) \<and>
   map (\<lambda>p. (name p, entries p, user_defined p))
     (LoadPatchSection_ini ''OnFrame'' sample_local_ini False True []) = [(''Bar'', [], True)]"
  using LoadPatchSection_flush_asymmetry [where il = True and st = "([], Patch_default)"
      and ls = "[''$Bar'']" and line = "''$Baz''" and patches = "[]" and ini = sample_local_ini
      and sec = "''OnFrame''" and ig = False]
  by (simp add: LoadPatchSection_line_def GetLines_def sample_local_ini_def Patch_default_def)

text \<open>
  C10: the lines of a source that come before its first header line are discarded:
  loading the source gives the same list as loading it with those lines removed. The
  entries they decode to gather in a patch with an empty name, which the first header
  line, or the end of the scan, drops.
\<close>

theorem entries_before_first_header_discarded:
  "LoadPatchSection_ini sec
     (SetLines ini sec (dropWhile (\<lambda>l. l = [] \<or> l ! 0 \<noteq> CHR ''$'') (GetLines ini sec)))
     ig il patches
   = LoadPatchSection_ini sec ini ig il patches"
proof -
  let ?P = "\<lambda>l. l = [] \<or> l ! 0 \<noteq> CHR ''$''"
  let ?f = "foldl (LoadPatchSection_line il)"
  obtain ps1 cur1 where r1: "?f (patches, Patch_default) (GetLines ini sec) = (ps1, cur1)"
    by (cases "?f (patches, Patch_default) (GetLines ini sec)")
  obtain ps2 cur2 where r2:
    "?f (patches, Patch_default) (dropWhile ?P (GetLines ini sec)) = (ps2, cur2)"
    by (cases "?f (patches, Patch_default) (dropWhile ?P (GetLines ini sec))")
  from scan_before_first_header [of il patches "GetLines ini sec"] r1 r2
  have eq: "ps1 = ps2" "(name cur1 = [] \<and> name cur2 = []) \<or> cur1 = cur2"
    by (simp_all add: Let_def)
  then have "(if name cur1 \<noteq> [] \<and> entries cur1 \<noteq> [] then ps1 @ [cur1] else ps1) =
      (if name cur2 \<noteq> [] \<and> entries cur2 \<noteq> [] then ps2 @ [cur2] else ps2)"
    by auto
  then show ?thesis
    unfolding LoadPatchSection_ini_def
    by (simp add: GetLines_SetLines ReadEnabledAndDisabled_SetLines r1 r2 Let_def)
qed

theorem entries_before_first_header_discarded_witness:
  "LoadPatchSection_ini ''OnFrame''
     (SetLines sample_global_ini ''OnFrame'' [''$Foo'', ''0x80001234:dword:0x00000001''])
     True False [] =
   [\<lparr>name = ''Foo'', entries = [sample_entry], enabled = True, default_enabled = True,
      user_defined = False\<rparr>]"
  using entries_before_first_header_discarded [where sec = "''OnFrame''"
      and ini = sample_global_ini and ig = True and il = False and patches = "[]"]
  by (simp add: sample_global_pass) (simp add: GetLines_def sample_global_ini_def)

text \<open>
  C3: let G be the list after the pass over the global source and F the list after the
  merge. Every patch of G is still in F at the same place, with the same name, entries
  and \<open>user_defined\<close>, and its \<open>default_enabled\<close> in F is its \<open>enabled\<close> in G: the
  snapshot is taken after the global pass, overrides included, and before the local
  pass. A patch that the local source lists as disabled is not enabled in F. Hence a
  patch that the global source defines and lists as enabled (and not as disabled), and
  that the local source lists as disabled, ends with \<open>enabled\<close> false,
  \<open>default_enabled\<close> true and \<open>user_defined\<close> false.
\<close>

theorem default_enabled_snapshot:
  "(let G = LoadPatchSection_ini sec globalIni True False patches;
        F = LoadPatchSection sec patches globalIni localIni
    in length patches \<le> length G \<and> length G \<le> length F \<and>
       (\<forall>i<length G.
          default_enabled (F ! i) = enabled (G ! i) \<and>
          name (F ! i) = name (G ! i) \<and> entries (F ! i) = entries (G ! i) \<and>
          user_defined (F ! i) = user_defined (G ! i) \<and>
          (CHR ''$'' # name (G ! i) \<in> set (GetLines localIni (sec @ ''_Disabled'')) \<longrightarrow>
             \<not> enabled (F ! i)) \<and>
          (length patches \<le> i \<and>
           CHR ''$'' # name (G ! i) \<in> set (GetLines globalIni (sec @ ''_Enabled'')) \<and>
           CHR ''$'' # name (G ! i) \<notin> set (GetLines globalIni (sec @ ''_Disabled'')) \<and>
           CHR ''$'' # name (G ! i) \<in> set (GetLines localIni (sec @ ''_Disabled'')) \<longrightarrow>
             \<not> enabled (F ! i) \<and> default_enabled (F ! i) \<and> \<not> user_defined (F ! i))))"
proof -
  define G where "G = LoadPatchSection_ini sec globalIni True False patches"
  define F where "F = LoadPatchSection sec patches globalIni localIni"
  obtain newg where g: "\<forall>p \<in> set newg. user_defined p = False"
    "G = map (\<lambda>patch. patch\<lparr>default_enabled := enabled patch\<rparr>)
           (ReadEnabledAndDisabled globalIni sec (patches @ newg))"
    using LoadPatchSection_ini_shape [of False sec globalIni True patches] unfolding G_def by auto
  obtain newl where l: "F = ReadEnabledAndDisabled localIni sec (G @ newl)"
    using LoadPatchSection_ini_shape [of True sec localIni False G]
    unfolding F_def G_def LoadPatchSection_def by auto
  have lenG: "length G = length patches + length newg"
    by (simp add: g(2) ReadEnabledAndDisabled_map)
  have lenF: "length F = length G + length newl"
    by (simp add: l ReadEnabledAndDisabled_map)
  have main: "default_enabled (F ! i) = enabled (G ! i) \<and>
          name (F ! i) = name (G ! i) \<and> entries (F ! i) = entries (G ! i) \<and>
          user_defined (F ! i) = user_defined (G ! i) \<and>
          (CHR ''$'' # name (G ! i) \<in> set (GetLines localIni (sec @ ''_Disabled'')) \<longrightarrow>
             \<not> enabled (F ! i)) \<and>
          (length patches \<le> i \<and>
           CHR ''$'' # name (G ! i) \<in> set (GetLines globalIni (sec @ ''_Enabled'')) \<and>
           CHR ''$'' # name (G ! i) \<notin> set (GetLines globalIni (sec @ ''_Disabled'')) \<and>
           CHR ''$'' # name (G ! i) \<in> set (GetLines localIni (sec @ ''_Disabled'')) \<longrightarrow>
             \<not> enabled (F ! i) \<and> default_enabled (F ! i) \<and> \<not> user_defined (F ! i))"
    if i: "i < length G" for i
  proof -
    let ?q = "(patches @ newg) ! i"
    have i': "i < length (patches @ newg)" using i lenG by simp
    have Gi: "G ! i = (let p1 = ?q\<lparr>enabled :=
                 (if CHR ''$'' # name ?q \<in> set (GetLines globalIni (sec @ ''_Disabled'')) then False
                  else if CHR ''$'' # name ?q \<in> set (GetLines globalIni (sec @ ''_Enabled'')) then True
                  else enabled ?q)\<rparr> in p1\<lparr>default_enabled := enabled p1\<rparr>)"
      unfolding g(2) ReadEnabledAndDisabled_map using i' by (simp add: Let_def del: map_append)
    have Fi: "F ! i = (G ! i)\<lparr>enabled :=
                 (if CHR ''$'' # name (G ! i) \<in> set (GetLines localIni (sec @ ''_Disabled'')) then False
                  else if CHR ''$'' # name (G ! i) \<in> set (GetLines localIni (sec @ ''_Enabled'')) then True
                  else enabled (G ! i))\<rparr>"
      unfolding l ReadEnabledAndDisabled_map using i by (simp add: nth_append)
    have ud: "length patches \<le> i \<Longrightarrow> \<not> user_defined ?q"
    proof -
      assume "length patches \<le> i"
      then have "?q = newg ! (i - length patches)" "i - length patches < length newg"
        using i' by (simp_all add: nth_append)
      then have "?q \<in> set newg" by simp
      with g(1) show ?thesis by simp
    qed
    show ?thesis
      unfolding Fi using ud by (simp add: Gi Let_def)
  qed
  have l1: "length patches \<le> length G" using lenG by simp
  have l2: "length G \<le> length F" using lenF by simp
  have "length patches \<le> length G \<and> length G \<le> length F \<and> (\<forall>i<length G.
          default_enabled (F ! i) = enabled (G ! i) \<and>
          name (F ! i) = name (G ! i) \<and> entries (F ! i) = entries (G ! i) \<and>
          user_defined (F ! i) = user_defined (G ! i) \<and>
          (CHR ''$'' # name (G ! i) \<in> set (GetLines localIni (sec @ ''_Disabled'')) \<longrightarrow>
             \<not> enabled (F ! i)) \<and>
          (length patches \<le> i \<and>
           CHR ''$'' # name (G ! i) \<in> set (GetLines globalIni (sec @ ''_Enabled'')) \<and>
           CHR ''$'' # name (G ! i) \<notin> set (GetLines globalIni (sec @ ''_Disabled'')) \<and>
           CHR ''$'' # name (G ! i) \<in> set (GetLines localIni (sec @ ''_Disabled'')) \<longrightarrow>
             \<not> enabled (F ! i) \<and> default_enabled (F ! i) \<and> \<not> user_defined (F ! i)))"
    using main l1 l2 by blast
  then show ?thesis unfolding Let_def G_def F_def .
qed

theorem default_enabled_snapshot_witness:
  "name (LoadPatchSection ''OnFrame'' [] sample_global_ini sample_local_ini ! 0) = ''Foo'' \<and>
   enabled (LoadPatchSection ''OnFrame'' [] sample_global_ini sample_local_ini ! 0) = False \<and>
   default_enabled (LoadPatchSection ''OnFrame'' [] sample_global_ini sample_local_ini ! 0) = True \<and>
   user_defined (LoadPatchSection ''OnFrame'' [] sample_global_ini sample_local_ini ! 0) = False"
  using default_enabled_snapshot [where sec = "''OnFrame''" and globalIni = sample_global_ini
      and patches = "[]" and localIni = sample_local_ini]
  by (simp add: Let_def sample_global_pass sample_merge)

section \<open>Facts about saving\<close>

text \<open>
  Every entry that \<open>DeserializeLine\<close> returns has one of the three patch types, so
  \<open>LoadPatchSection\<close> keeps a list of such entries a list of such entries.
\<close>

lemma DeserializeLine_type:
  "DeserializeLine line = Some e \<Longrightarrow> known_type (type' e)"
proof -
  have "find_distance s_patch_type_strings x \<noteq> length s_patch_type_strings \<Longrightarrow>
      known_type (int (find_distance s_patch_type_strings x))" for x
  proof -
    assume ne: "find_distance s_patch_type_strings x \<noteq> length s_patch_type_strings"
    have "find_distance s_patch_type_strings x \<le> length s_patch_type_strings"
      unfolding find_distance_def by (rule length_takeWhile_le)
    with ne have "find_distance s_patch_type_strings x < 3"
      by (simp add: s_patch_type_strings_def)
    then show ?thesis
      by (auto simp: known_type_def Patch8Bit_def Patch16Bit_def Patch32Bit_def)
  qed
  then show "DeserializeLine line = Some e \<Longrightarrow> ?thesis"
    by (auto simp: DeserializeLine_def Let_def split: option.splits if_splits)
qed

lemma scan_types:
  assumes "\<forall>p \<in> set ps. \<forall>e \<in> set (entries p). known_type (type' e)"
    and "\<forall>e \<in> set (entries cur). known_type (type' e)"
  shows "(\<forall>p \<in> set (fst (foldl (LoadPatchSection_line il) (ps, cur) ls)).
            \<forall>e \<in> set (entries p). known_type (type' e)) \<and>
         (\<forall>e \<in> set (entries (snd (foldl (LoadPatchSection_line il) (ps, cur) ls))).
            known_type (type' e))"
  using assms
proof (induction ls arbitrary: ps cur)
  case Nil
  then show ?case by simp
next
  case (Cons l ls)
  obtain ps' cur' where st: "LoadPatchSection_line il (ps, cur) l = (ps', cur')"
    by (cases "LoadPatchSection_line il (ps, cur) l")
  have "(\<forall>p \<in> set ps'. \<forall>e \<in> set (entries p). known_type (type' e)) \<and>
      (\<forall>e \<in> set (entries cur'). known_type (type' e))"
  proof (cases "l \<noteq> [] \<and> l ! 0 = CHR ''$''")
    case True
    then show ?thesis
      using st Cons.prems by (auto simp: LoadPatchSection_line_header split: if_splits)
  next
    case False
    then have "l = [] \<or> l ! 0 \<noteq> CHR ''$''" by blast
    from LoadPatchSection_line_body [OF this, of il ps cur] st
    have "ps' = ps" "cur' = cur\<lparr>entries := entries cur @
        (case DeserializeLine l of None \<Rightarrow> [] | Some e \<Rightarrow> [e])\<rparr>"
      by simp_all
    then show ?thesis
      using Cons.prems by (auto split: option.splits dest: DeserializeLine_type)
  qed
  then show ?case using Cons.IH [of ps' cur'] by (simp add: st)
qed

lemma LoadPatchSection_ini_types:
  assumes "\<forall>p \<in> set ps. \<forall>e \<in> set (entries p). known_type (type' e)"
  shows "\<forall>p \<in> set (LoadPatchSection_ini sec ini ig il ps).
           \<forall>e \<in> set (entries p). known_type (type' e)"
proof -
  obtain ps' cur' where
    st: "foldl (LoadPatchSection_line il) (ps, Patch_default) (GetLines ini sec) = (ps', cur')"
    by (cases "foldl (LoadPatchSection_line il) (ps, Patch_default) (GetLines ini sec)")
  have "\<forall>e \<in> set (entries Patch_default). known_type (type' e)"
    by (simp add: Patch_default_def)
  from scan_types [OF assms this, of il "GetLines ini sec"] st
  have ok: "\<forall>p \<in> set ps'. \<forall>e \<in> set (entries p). known_type (type' e)"
    "\<forall>e \<in> set (entries cur'). known_type (type' e)"
    by simp_all
  then show ?thesis
    by (auto simp: LoadPatchSection_ini_def st Let_def ReadEnabledAndDisabled_map)
qed

lemma LoadPatchSection_types:
  assumes "\<forall>p \<in> set ps. \<forall>e \<in> set (entries p). known_type (type' e)"
  shows "\<forall>p \<in> set (LoadPatchSection sec ps globalIni localIni).
           \<forall>e \<in> set (entries p). known_type (type' e)"
  unfolding LoadPatchSection_def
  by (intro LoadPatchSection_ini_types assms)

lemma SerializeLine_recognised:
  "known_type (type' e) \<Longrightarrow> \<exists>s. SerializeLine e = Inr s"
  by (auto simp: SerializeLine_def PatchTypeAsString_def s_patch_type_strings_def
      known_type_def Patch8Bit_def Patch16Bit_def Patch32Bit_def)

lemma SerializeLine_unrecognised:
  "\<not> known_type (type' e) \<Longrightarrow> SerializeLine e = Inl OutOfRange"
  by (auto simp: SerializeLine_def PatchTypeAsString_def s_patch_type_strings_def
      known_type_def Patch8Bit_def Patch16Bit_def Patch32Bit_def)

lemma SavePatchSection_entries_ok:
  "\<forall>e \<in> set es. known_type (type' e) \<Longrightarrow>
   \<exists>ss. SavePatchSection_entries lines es = Inr (lines @ ss) \<and> map Inr ss = map SerializeLine es"
proof (induction es arbitrary: lines)
  case Nil
  show ?case by simp
next
  case (Cons e es)
  then obtain s where s: "SerializeLine e = Inr s"
    using SerializeLine_recognised [of e] by auto
  from Cons obtain ss where
    ss: "SavePatchSection_entries (lines @ [s]) es = Inr ((lines @ [s]) @ ss)"
      "map Inr ss = map SerializeLine es"
    by fastforce
  have "SavePatchSection_entries lines (e # es) = Inr (lines @ (s # ss))"
    using s ss(1) by simp
  moreover have "map Inr (s # ss) = map SerializeLine (e # es)"
    using s ss(2) by simp
  ultimately show ?case by blast
qed

lemma SavePatchSection_loop_ok:
  "\<forall>p \<in> set patches. user_defined p \<longrightarrow>
      (\<forall>e \<in> set (entries p). known_type (type' e)) \<Longrightarrow>
   \<exists>ls. SavePatchSection_loop (lines, lines_enabled, lines_disabled) patches =
       Inr (lines @ ls,
            lines_enabled @ map (\<lambda>p. CHR ''$'' # name p)
               (filter (\<lambda>p. enabled p \<noteq> default_enabled p \<and> enabled p) patches),
            lines_disabled @ map (\<lambda>p. CHR ''$'' # name p)
               (filter (\<lambda>p. enabled p \<noteq> default_enabled p \<and> \<not> enabled p) patches)) \<and>
       map Inr ls =
         concat (map (\<lambda>p. Inr (CHR ''$'' # name p) # map SerializeLine (entries p))
                   (filter user_defined patches))"
proof (induction patches arbitrary: lines lines_enabled lines_disabled)
  case Nil
  show ?case by simp
next
  case (Cons p patches)
  let ?E = "if enabled p \<noteq> default_enabled p \<and> enabled p
            then lines_enabled @ [CHR ''$'' # name p] else lines_enabled"
  let ?D = "if enabled p \<noteq> default_enabled p \<and> \<not> enabled p
            then lines_disabled @ [CHR ''$'' # name p] else lines_disabled"
  have rest: "\<forall>p \<in> set patches. user_defined p \<longrightarrow>
      (\<forall>e \<in> set (entries p). known_type (type' e))"
    using Cons.prems by simp
  show ?case
  proof (cases "user_defined p")
    case False
    from Cons.IH [OF rest, of lines ?E ?D] obtain ls where
      ls: "SavePatchSection_loop (lines, ?E, ?D) patches =
             Inr (lines @ ls,
               ?E @ map (\<lambda>p. CHR ''$'' # name p)
                 (filter (\<lambda>p. enabled p \<noteq> default_enabled p \<and> enabled p) patches),
               ?D @ map (\<lambda>p. CHR ''$'' # name p)
                 (filter (\<lambda>p. enabled p \<noteq> default_enabled p \<and> \<not> enabled p) patches))"
        "map Inr ls =
           concat (map (\<lambda>p. Inr (CHR ''$'' # name p) # map SerializeLine (entries p))
                   (filter user_defined patches))"
      by blast
    show ?thesis
      by (rule exI [of _ ls]) (use False ls in \<open>simp add: Let_def\<close>)
  next
    case True
    then have "\<forall>e \<in> set (entries p). known_type (type' e)"
      using Cons.prems by simp
    from SavePatchSection_entries_ok [OF this, of "lines @ [CHR ''$'' # name p]"]
    obtain ss where ss:
      "SavePatchSection_entries (lines @ [CHR ''$'' # name p]) (entries p) =
         Inr ((lines @ [CHR ''$'' # name p]) @ ss)"
      "map Inr ss = map SerializeLine (entries p)"
      by blast
    from Cons.IH [OF rest, of "(lines @ [CHR ''$'' # name p]) @ ss" ?E ?D] obtain ls where
      ls: "SavePatchSection_loop ((lines @ [CHR ''$'' # name p]) @ ss, ?E, ?D) patches =
             Inr (((lines @ [CHR ''$'' # name p]) @ ss) @ ls,
               ?E @ map (\<lambda>p. CHR ''$'' # name p)
                 (filter (\<lambda>p. enabled p \<noteq> default_enabled p \<and> enabled p) patches),
               ?D @ map (\<lambda>p. CHR ''$'' # name p)
                 (filter (\<lambda>p. enabled p \<noteq> default_enabled p \<and> \<not> enabled p) patches))"
        "map Inr ls =
           concat (map (\<lambda>p. Inr (CHR ''$'' # name p) # map SerializeLine (entries p))
                   (filter user_defined patches))"
      by blast
    show ?thesis
      by (rule exI [of _ "(CHR ''$'' # name p) # ss @ ls"])
        (use True ss ls in \<open>simp add: Let_def\<close>)
  qed
qed

lemma SavePatchSection_entries_bad:
  "\<exists>e \<in> set es. \<not> known_type (type' e) \<Longrightarrow>
   SavePatchSection_entries lines es = Inl OutOfRange"
proof (induction es arbitrary: lines)
  case Nil
  then show ?case by simp
next
  case (Cons e es)
  show ?case
  proof (cases "known_type (type' e)")
    case True
    then obtain s where "SerializeLine e = Inr s" using SerializeLine_recognised by blast
    moreover from True Cons.prems
    have "\<exists>e \<in> set es. \<not> known_type (type' e)" by auto
    ultimately show ?thesis using Cons.IH by simp
  next
    case False
    then show ?thesis using SerializeLine_unrecognised [of e] by simp
  qed
qed

lemma SavePatchSection_loop_bad:
  "\<exists>p \<in> set patches. user_defined p \<and>
      (\<exists>e \<in> set (entries p). \<not> known_type (type' e)) \<Longrightarrow>
   SavePatchSection_loop acc patches = Inl OutOfRange"
proof (induction patches arbitrary: acc)
  case Nil
  then show ?case by simp
next
  case (Cons p patches)
  obtain l e d where acc: "acc = (l, e, d)" by (cases acc)
  show ?case
  proof (cases "user_defined p \<and>
      (\<exists>e \<in> set (entries p). \<not> known_type (type' e))")
    case True
    then show ?thesis
      using SavePatchSection_entries_bad [of "entries p" "l @ [CHR ''$'' # name p]"]
      by (simp add: acc Let_def)
  next
    case False
    with Cons.prems have rest: "\<exists>p \<in> set patches. user_defined p \<and>
      (\<exists>e \<in> set (entries p). \<not> known_type (type' e))" by auto
    show ?thesis
    proof (cases "user_defined p")
      case ud: False
      then show ?thesis using Cons.IH [OF rest] by (simp add: acc Let_def)
    next
      case ud: True
      with False have "\<forall>e \<in> set (entries p). known_type (type' e)"
        by blast
      from SavePatchSection_entries_ok [OF this, of "l @ [CHR ''$'' # name p]"]
      obtain ss where "SavePatchSection_entries (l @ [CHR ''$'' # name p]) (entries p) =
         Inr ((l @ [CHR ''$'' # name p]) @ ss)" by blast
      then show ?thesis using ud Cons.IH [OF rest] by (simp add: acc Let_def)
    qed
  qed
qed

lemma SavePatchSection_unrecognised_type:
  assumes "\<exists>p \<in> set patches. user_defined p \<and>
       (\<exists>e \<in> set (entries p). \<not> known_type (type' e))"
  shows "SavePatchSection local_ini patches = Inl OutOfRange"
  using SavePatchSection_loop_bad [OF assms, of "([], [], [])"]
  by (simp add: SavePatchSection_def)

text \<open>
  C4: for every patch list (the entries of its user-defined patches holding one of the
  three patch types, as every entry that \<open>DeserializeLine\<close> returns does),
  \<open>SavePatchSection\<close> sets the section \<open>OnFrame_Enabled\<close> to the lines \<open>$name\<close> of the
  patches whose \<open>enabled\<close> differs from \<open>default_enabled\<close> and is true,
  \<open>OnFrame_Disabled\<close> to those of the patches where it differs and is false, and
  \<open>OnFrame\<close> to the definitions of the user-defined patches: \<open>$name\<close> followed by the
  serialized line of each entry, in order. Patches that are not user-defined add no
  definition line.
\<close>

theorem SavePatchSection_emits:
  assumes "\<forall>p \<in> set patches. user_defined p \<longrightarrow>
       (\<forall>e \<in> set (entries p). known_type (type' e))"
  shows "\<exists>ini'. SavePatchSection local_ini patches = Inr ini' \<and>
       GetLines ini' ''OnFrame_Enabled'' =
         map (\<lambda>p. CHR ''$'' # name p)
           (filter (\<lambda>p. enabled p \<noteq> default_enabled p \<and> enabled p) patches) \<and>
       GetLines ini' ''OnFrame_Disabled'' =
         map (\<lambda>p. CHR ''$'' # name p)
           (filter (\<lambda>p. enabled p \<noteq> default_enabled p \<and> \<not> enabled p) patches) \<and>
       map Inr (GetLines ini' ''OnFrame'') =
         concat (map (\<lambda>p. Inr (CHR ''$'' # name p) # map SerializeLine (entries p))
                   (filter user_defined patches))"
proof -
  from SavePatchSection_loop_ok [OF assms, of "[]" "[]" "[]"] obtain ls where
    ls: "SavePatchSection_loop ([], [], []) patches =
       Inr ([] @ ls,
            [] @ map (\<lambda>p. CHR ''$'' # name p)
               (filter (\<lambda>p. enabled p \<noteq> default_enabled p \<and> enabled p) patches),
            [] @ map (\<lambda>p. CHR ''$'' # name p)
               (filter (\<lambda>p. enabled p \<noteq> default_enabled p \<and> \<not> enabled p) patches))"
      "map Inr ls =
         concat (map (\<lambda>p. Inr (CHR ''$'' # name p) # map SerializeLine (entries p))
                   (filter user_defined patches))"
    by blast
  then show ?thesis
    by (simp add: SavePatchSection_def GetLines_def SetLines_def)
qed

theorem SavePatchSection_emits_witness:
  "\<exists>ini'. SavePatchSection empty_ini sample_patches = Inr ini' \<and>
      GetLines ini' ''OnFrame_Enabled'' = [] \<and>
      GetLines ini' ''OnFrame_Disabled'' = [''$Foo''] \<and>
      GetLines ini' ''OnFrame'' = [''$Bar'', ''0x80001234:dword:0x00000001'']"
proof -
  have "\<forall>p \<in> set sample_patches. user_defined p \<longrightarrow>
       (\<forall>e \<in> set (entries p). known_type (type' e))"
    by (simp add: sample_patches_def sample_entry_def known_type_def)
  from SavePatchSection_emits [OF this, of empty_ini] show ?thesis
    by (simp add: sample_patches_def SerializeLine_sample SavePatchSection_def GetLines_def
        SetLines_def Let_def)
qed

section \<open>Facts about the lifecycle\<close>

lemma LoadPatchSection_line_append:
  "LoadPatchSection_line il (ps, cur) line =
     (ps @ fst (LoadPatchSection_line il ([], cur) line),
      snd (LoadPatchSection_line il ([], cur) line))"
  by (simp add: LoadPatchSection_line_def split: option.splits)

lemma scan_append:
  "foldl (LoadPatchSection_line il) (ps, cur) ls =
     (ps @ fst (foldl (LoadPatchSection_line il) ([], cur) ls),
      snd (foldl (LoadPatchSection_line il) ([], cur) ls))"
proof (induction ls rule: rev_induct)
  case Nil
  show ?case by simp
next
  case (snoc l ls)
  obtain a c where r: "foldl (LoadPatchSection_line il) ([], cur) ls = (a, c)"
    by (cases "foldl (LoadPatchSection_line il) ([], cur) ls")
  have "foldl (LoadPatchSection_line il) (ps, cur) (ls @ [l]) =
      LoadPatchSection_line il (ps @ a, c) l" using snoc r by simp
  also have "\<dots> = ((ps @ a) @ fst (LoadPatchSection_line il ([], c) l),
      snd (LoadPatchSection_line il ([], c) l))"
    by (rule LoadPatchSection_line_append)
  also have "\<dots> = (ps @ fst (LoadPatchSection_line il (a, c) l),
      snd (LoadPatchSection_line il (a, c) l))"
    by (subst (3 4) LoadPatchSection_line_append) simp
  finally show ?case by (simp add: r)
qed

lemma ReadEnabledAndDisabled_append:
  "ReadEnabledAndDisabled ini sec (xs @ ys) =
     ReadEnabledAndDisabled ini sec xs @ ReadEnabledAndDisabled ini sec ys"
  by (simp add: ReadEnabledAndDisabled_map)

lemma LoadPatchSection_ini_append:
  "LoadPatchSection_ini sec ini ig il ps =
     (if ig then map (\<lambda>patch. patch\<lparr>default_enabled := enabled patch\<rparr>)
                  (ReadEnabledAndDisabled ini sec ps)
      else ReadEnabledAndDisabled ini sec ps) @
     LoadPatchSection_ini sec ini ig il []"
proof -
  obtain a c where r:
    "foldl (LoadPatchSection_line il) ([], Patch_default) (GetLines ini sec) = (a, c)"
    by (cases "foldl (LoadPatchSection_line il) ([], Patch_default) (GetLines ini sec)")
  have "foldl (LoadPatchSection_line il) (ps, Patch_default) (GetLines ini sec) = (ps @ a, c)"
    by (subst scan_append) (simp add: r)
  then show ?thesis
    by (simp add: LoadPatchSection_ini_def r Let_def ReadEnabledAndDisabled_append)
qed

lemma LoadPatchSection_append:
  "LoadPatchSection sec ps g l =
     ReadEnabledAndDisabled l sec
       (map (\<lambda>patch. patch\<lparr>default_enabled := enabled patch\<rparr>)
          (ReadEnabledAndDisabled g sec ps)) @
     LoadPatchSection sec [] g l"
proof -
  let ?G0 = "LoadPatchSection_ini sec g True False []"
  let ?c = "map (\<lambda>patch. patch\<lparr>default_enabled := enabled patch\<rparr>)
          (ReadEnabledAndDisabled g sec ps)"
  have G: "LoadPatchSection_ini sec g True False ps = ?c @ ?G0"
    by (subst LoadPatchSection_ini_append) simp
  have "LoadPatchSection sec ps g l =
      ReadEnabledAndDisabled l sec (?c @ ?G0) @ LoadPatchSection_ini sec l False True []"
    unfolding LoadPatchSection_def G by (subst LoadPatchSection_ini_append) simp
  moreover have "LoadPatchSection sec [] g l =
      ReadEnabledAndDisabled l sec ?G0 @ LoadPatchSection_ini sec l False True []"
    unfolding LoadPatchSection_def by (subst LoadPatchSection_ini_append) simp
  ultimately show ?thesis by (simp add: ReadEnabledAndDisabled_append)
qed

lemma carried_over:
  "length (ReadEnabledAndDisabled l sec
       (map (\<lambda>patch. patch\<lparr>default_enabled := enabled patch\<rparr>)
          (ReadEnabledAndDisabled g sec ps))) = length ps"
  "map (\<lambda>p. (name p, entries p, user_defined p)) (ReadEnabledAndDisabled l sec
       (map (\<lambda>patch. patch\<lparr>default_enabled := enabled patch\<rparr>)
          (ReadEnabledAndDisabled g sec ps))) = map (\<lambda>p. (name p, entries p, user_defined p)) ps"
  by (simp_all add: ReadEnabledAndDisabled_map comp_def)

lemma LoadSpeedhacks_key_add:
  "LoadSpeedhacks_key sec ini (t ++ u) key = t ++ LoadSpeedhacks_key sec ini u key"
  by (simp add: LoadSpeedhacks_key_def Let_def split: option.splits)

lemma LoadSpeedhacks_add:
  "LoadSpeedhacks sec ini t = t ++ LoadSpeedhacks sec ini Map.empty"
proof -
  have "foldl (LoadSpeedhacks_key sec ini) (t ++ u) ks =
      t ++ foldl (LoadSpeedhacks_key sec ini) u ks" for u ks
    by (induction ks arbitrary: u) (simp_all add: LoadSpeedhacks_key_add)
  from this [of Map.empty] show ?thesis by (simp add: LoadSpeedhacks_def)
qed

lemma sample_config_empty:
  "LoadPatchSection ''OnFrame'' ps empty_ini empty_ini =
     map (\<lambda>patch. patch\<lparr>default_enabled := enabled patch\<rparr>) ps"
  "LoadSpeedhacks ''Speedhacks'' empty_ini t = t"
  by (simp_all add: LoadPatchSection_def LoadPatchSection_ini_def GetLines_def empty_ini_def
      Patch_default_def ReadEnabledAndDisabled_def ReadEnabledOrDisabled_def
      LoadSpeedhacks_def GetKeys_def)

lemma map_add_eq_right_iff: "t ++ u = u \<longleftrightarrow> dom t \<subseteq> dom u"
proof
  assume eq: "t ++ u = u"
  show "dom t \<subseteq> dom u"
  proof
    fix x
    assume "x \<in> dom t"
    then obtain y where y: "t x = Some y" by blast
    show "x \<in> dom u"
    proof (cases "u x")
      case None
      then have "(t ++ u) x = Some y" using y by (simp add: map_add_def)
      with eq None show ?thesis by simp
    next
      case (Some z)
      then show ?thesis by blast
    qed
  qed
next
  assume sub: "dom t \<subseteq> dom u"
  show "t ++ u = u"
  proof
    fix x
    show "(t ++ u) x = u x"
    proof (cases "u x")
      case None
      then have "x \<notin> dom t" using sub by blast
      then show ?thesis using None by (simp add: map_add_def domIff)
    next
      case (Some z)
      then show ?thesis by (simp add: map_add_def)
    qed
  qed
qed

lemma sample_speedhacks_loaded:
  "LoadSpeedhacks ''Speedhacks'' sample_speedhacks_ini t = t(16 \<mapsto> 5)"
  by (simp add: LoadSpeedhacks_def LoadSpeedhacks_key_def sample_speedhacks_rows
      TryParse_examples)

lemma sample_configured_inis:
  "LoadGameIni sample_Collaborators sample_configured_host = sample_speedhacks_ini"
  "LoadDefaultGameIni sample_Collaborators sample_configured_host = sample_global_ini"
  "LoadLocalGameIni sample_Collaborators sample_configured_host = sample_local_ini"
  "host (Shutdown sample_Collaborators sample_configured) = sample_configured_host"
  "host sample_configured = sample_configured_host"
  "host sample_overwritten = sample_configured_host"
  by (simp_all add: sample_Collaborators_def sample_configured_host_def Shutdown_def
      sample_configured_def sample_overwritten_def)

text \<open>
  C8, as the code has it: \<open>Reload\<close> rebuilds the patch list and the speed-hack table
  from the configuration alone (two states with the same host state reload to the same
  state; the list and the table are what \<open>LoadPatchSection\<close> and \<open>LoadSpeedhacks\<close>
  give from nothing), and \<open>Shutdown\<close> clears both. \<open>LoadPatches\<close> does not clear, it
  appends: the patches that were in the list stay in front (same names, entries and
  \<open>user_defined\<close>), followed by the patches of the configuration, and the table keeps
  every row the configuration does not overwrite. So after \<open>LoadPatches\<close> the list is
  exactly the configuration's exactly when the list was empty before, and the table is
  exactly the configuration's exactly when every address it held before is one the
  configuration loads; both hold when the list and the table were empty.
\<close>

theorem Reload_rebuilds_Load_appends:
  "(host s = host s' \<longrightarrow> Reload C s = Reload C s') \<and>
   s_on_frame (Shutdown C s) = [] \<and> s_speed_hacks (Shutdown C s) = Map.empty \<and>
   s_on_frame (Reload C s) =
     LoadPatchSection ''OnFrame'' [] (LoadDefaultGameIni C (host (Shutdown C s)))
       (LoadLocalGameIni C (host (Shutdown C s))) \<and>
   s_speed_hacks (Reload C s) =
     LoadSpeedhacks ''Speedhacks'' (LoadGameIni C (host (Shutdown C s))) Map.empty \<and>
   (s_on_frame s = [] \<and> s_speed_hacks s = Map.empty \<longrightarrow>
      s_on_frame (LoadPatches C s) =
        LoadPatchSection ''OnFrame'' [] (LoadDefaultGameIni C (host s)) (LoadLocalGameIni C (host s)) \<and>
      s_speed_hacks (LoadPatches C s) =
        LoadSpeedhacks ''Speedhacks'' (LoadGameIni C (host s)) Map.empty) \<and>
   length (s_on_frame (LoadPatches C s)) =
     length (s_on_frame s) +
     length (LoadPatchSection ''OnFrame'' [] (LoadDefaultGameIni C (host s))
               (LoadLocalGameIni C (host s))) \<and>
   map (\<lambda>p. (name p, entries p, user_defined p))
       (take (length (s_on_frame s)) (s_on_frame (LoadPatches C s))) =
     map (\<lambda>p. (name p, entries p, user_defined p)) (s_on_frame s) \<and>
   drop (length (s_on_frame s)) (s_on_frame (LoadPatches C s)) =
     LoadPatchSection ''OnFrame'' [] (LoadDefaultGameIni C (host s)) (LoadLocalGameIni C (host s)) \<and>
   s_speed_hacks (LoadPatches C s) =
     s_speed_hacks s ++ LoadSpeedhacks ''Speedhacks'' (LoadGameIni C (host s)) Map.empty \<and>
   (s_on_frame (LoadPatches C s) =
      LoadPatchSection ''OnFrame'' [] (LoadDefaultGameIni C (host s)) (LoadLocalGameIni C (host s))
    \<longleftrightarrow> s_on_frame s = []) \<and>
   (s_speed_hacks (LoadPatches C s) =
      LoadSpeedhacks ''Speedhacks'' (LoadGameIni C (host s)) Map.empty
    \<longleftrightarrow> dom (s_speed_hacks s) \<subseteq>
          dom (LoadSpeedhacks ''Speedhacks'' (LoadGameIni C (host s)) Map.empty))"
proof -
  let ?g = "LoadDefaultGameIni C (host s)" and ?l = "LoadLocalGameIni C (host s)"
  let ?c = "ReadEnabledAndDisabled ?l ''OnFrame''
       (map (\<lambda>patch. patch\<lparr>default_enabled := enabled patch\<rparr>)
          (ReadEnabledAndDisabled ?g ''OnFrame'' (s_on_frame s)))"
  have a: "host s = host s' \<longrightarrow> Reload C s = Reload C s'"
    by (simp add: Reload_def Shutdown_def)
  have b: "s_on_frame (Shutdown C s) = []" "s_speed_hacks (Shutdown C s) = Map.empty"
    by (simp_all add: Shutdown_def)
  have c: "s_on_frame (Reload C s) =
     LoadPatchSection ''OnFrame'' [] (LoadDefaultGameIni C (host (Shutdown C s)))
       (LoadLocalGameIni C (host (Shutdown C s)))"
    "s_speed_hacks (Reload C s) =
     LoadSpeedhacks ''Speedhacks'' (LoadGameIni C (host (Shutdown C s))) Map.empty"
    by (simp_all add: Reload_def LoadPatches_def Let_def b)
  have d: "s_on_frame (LoadPatches C s) = LoadPatchSection ''OnFrame'' (s_on_frame s) ?g ?l"
    "s_speed_hacks (LoadPatches C s) =
       LoadSpeedhacks ''Speedhacks'' (LoadGameIni C (host s)) (s_speed_hacks s)"
    by (simp_all add: LoadPatches_def Let_def)
  have e: "s_on_frame (LoadPatches C s) = ?c @ LoadPatchSection ''OnFrame'' [] ?g ?l"
    unfolding d(1) by (rule LoadPatchSection_append)
  have len: "length ?c = length (s_on_frame s)" by (rule carried_over(1))
  have f: "length (s_on_frame (LoadPatches C s)) =
     length (s_on_frame s) + length (LoadPatchSection ''OnFrame'' [] ?g ?l)"
    unfolding e using len by simp
  have g: "map (\<lambda>p. (name p, entries p, user_defined p))
       (take (length (s_on_frame s)) (s_on_frame (LoadPatches C s))) =
     map (\<lambda>p. (name p, entries p, user_defined p)) (s_on_frame s)"
    unfolding e using len carried_over(2) [of ?l "''OnFrame''" ?g "s_on_frame s"] by simp
  have h: "drop (length (s_on_frame s)) (s_on_frame (LoadPatches C s)) =
     LoadPatchSection ''OnFrame'' [] ?g ?l"
    unfolding e using len by simp
  have i: "s_speed_hacks (LoadPatches C s) =
     s_speed_hacks s ++ LoadSpeedhacks ''Speedhacks'' (LoadGameIni C (host s)) Map.empty"
    unfolding d(2) by (rule LoadSpeedhacks_add)
  have j: "s_on_frame s = [] \<and> s_speed_hacks s = Map.empty \<longrightarrow>
      s_on_frame (LoadPatches C s) = LoadPatchSection ''OnFrame'' [] ?g ?l \<and>
      s_speed_hacks (LoadPatches C s) =
        LoadSpeedhacks ''Speedhacks'' (LoadGameIni C (host s)) Map.empty"
    using d by simp
  have k: "s_on_frame (LoadPatches C s) = LoadPatchSection ''OnFrame'' [] ?g ?l
      \<longleftrightarrow> s_on_frame s = []"
  proof
    assume "s_on_frame (LoadPatches C s) = LoadPatchSection ''OnFrame'' [] ?g ?l"
    with f show "s_on_frame s = []" by simp
  next
    assume "s_on_frame s = []"
    then show "s_on_frame (LoadPatches C s) = LoadPatchSection ''OnFrame'' [] ?g ?l"
      using d(1) by simp
  qed
  have l: "s_speed_hacks (LoadPatches C s) =
      LoadSpeedhacks ''Speedhacks'' (LoadGameIni C (host s)) Map.empty
      \<longleftrightarrow> dom (s_speed_hacks s) \<subseteq>
            dom (LoadSpeedhacks ''Speedhacks'' (LoadGameIni C (host s)) Map.empty)"
    unfolding i by (rule map_add_eq_right_iff)
  from a b c f g h i j k l show ?thesis by blast
qed

theorem Reload_rebuilds_Load_appends_witness:
  "s_on_frame (Reload sample_Collaborators sample_configured) =
     [\<lparr>name = ''Foo'', entries = [sample_entry], enabled = False, default_enabled = True,
        user_defined = False\<rparr>,
      \<lparr>name = ''Bar'', entries = [], enabled = False, default_enabled = False,
        user_defined = True\<rparr>] \<and>
   s_speed_hacks (Reload sample_Collaborators sample_configured) = [16 \<mapsto> 5] \<and>
   length (s_on_frame (LoadPatches sample_Collaborators sample_configured)) = 3 \<and>
   map name (s_on_frame (LoadPatches sample_Collaborators sample_configured)) =
     [''Old'', ''Foo'', ''Bar''] \<and>
   GetSpeedhackCycles (s_speed_hacks (LoadPatches sample_Collaborators sample_configured)) 16 = 5 \<and>
   GetSpeedhackCycles (s_speed_hacks (LoadPatches sample_Collaborators sample_configured)) 32 = 9 \<and>
   s_on_frame (LoadPatches sample_Collaborators sample_configured) \<noteq>
     s_on_frame (Reload sample_Collaborators sample_configured) \<and>
   s_speed_hacks (LoadPatches sample_Collaborators sample_configured) \<noteq>
     s_speed_hacks (Reload sample_Collaborators sample_configured) \<and>
   s_on_frame (LoadPatches sample_Collaborators sample_overwritten) =
     s_on_frame (Reload sample_Collaborators sample_configured) \<and>
   s_speed_hacks (LoadPatches sample_Collaborators sample_overwritten) = [16 \<mapsto> 5] \<and>
   LoadPatches sample_Collaborators (Shutdown sample_Collaborators sample_configured) =
     Reload sample_Collaborators sample_configured \<and>
   s_on_frame (Reload sample_Collaborators sample_loaded) = [] \<and>
   s_speed_hacks (Reload sample_Collaborators sample_loaded) = Map.empty"
proof -
  let ?C = sample_Collaborators
  let ?new = "[\<lparr>name = ''Foo'', entries = [sample_entry], enabled = False, default_enabled = True,
        user_defined = False\<rparr>,
      \<lparr>name = ''Bar'', entries = [], enabled = False, default_enabled = False,
        user_defined = True\<rparr>]"
  note t1 = Reload_rebuilds_Load_appends [where s = sample_configured
      and s' = sample_configured and C = ?C]
  note t2 = Reload_rebuilds_Load_appends [where s = sample_overwritten
      and s' = sample_overwritten and C = ?C]
  note t3 = Reload_rebuilds_Load_appends [where s = sample_loaded
      and s' = sample_loaded and C = ?C]
  have r1: "s_on_frame (Reload ?C sample_configured) = ?new"
    using t1 by (simp add: sample_configured_inis sample_merge)
  have r2: "s_speed_hacks (Reload ?C sample_configured) = [16 \<mapsto> 5]"
    using t1 by (simp add: sample_configured_inis sample_speedhacks_loaded)
  have old: "s_on_frame sample_configured \<noteq> []" "length (s_on_frame sample_configured) = 1"
    "map name (s_on_frame sample_configured) = [''Old'']"
    "s_speed_hacks sample_configured = [16 \<mapsto> 7, 32 \<mapsto> 9]"
    by (simp_all add: sample_configured_def)
  have l1: "length (s_on_frame (LoadPatches ?C sample_configured)) = 3"
    using t1 old(2) by (simp add: sample_configured_inis sample_merge)
  have dr: "drop 1 (s_on_frame (LoadPatches ?C sample_configured)) = ?new"
    using t1 old(2) by (simp add: sample_configured_inis sample_merge)
  have tk: "map name (take 1 (s_on_frame (LoadPatches ?C sample_configured))) = [''Old'']"
  proof -
    from t1 have "map (\<lambda>p. (name p, entries p, user_defined p))
        (take (length (s_on_frame sample_configured))
           (s_on_frame (LoadPatches ?C sample_configured))) =
      map (\<lambda>p. (name p, entries p, user_defined p)) (s_on_frame sample_configured)"
      by blast
    then have "map fst (map (\<lambda>p. (name p, entries p, user_defined p))
        (take 1 (s_on_frame (LoadPatches ?C sample_configured)))) =
      map fst (map (\<lambda>p. (name p, entries p, user_defined p)) (s_on_frame sample_configured))"
      using old(2) by simp
    then show ?thesis using old(3) by (simp add: comp_def)
  qed
  have l2: "map name (s_on_frame (LoadPatches ?C sample_configured)) = [''Old'', ''Foo'', ''Bar'']"
  proof -
    have "s_on_frame (LoadPatches ?C sample_configured) =
        take 1 (s_on_frame (LoadPatches ?C sample_configured)) @
        drop 1 (s_on_frame (LoadPatches ?C sample_configured))"
      by simp
    then have "map name (s_on_frame (LoadPatches ?C sample_configured)) =
        map name (take 1 (s_on_frame (LoadPatches ?C sample_configured))) @
        map name (drop 1 (s_on_frame (LoadPatches ?C sample_configured)))"
      by (metis map_append)
    then show ?thesis unfolding tk dr by simp
  qed
  have tb: "s_speed_hacks (LoadPatches ?C sample_configured) =
      [16 \<mapsto> 7, 32 \<mapsto> 9] ++ [16 \<mapsto> 5]"
    using t1 old(4) by (simp add: sample_configured_inis sample_speedhacks_loaded)
  have l3: "GetSpeedhackCycles (s_speed_hacks (LoadPatches ?C sample_configured)) 16 = 5"
    "GetSpeedhackCycles (s_speed_hacks (LoadPatches ?C sample_configured)) 32 = 9"
    unfolding tb by (simp_all add: GetSpeedhackCycles_def map_add_def)
  have n1: "s_on_frame (LoadPatches ?C sample_configured) \<noteq> s_on_frame (Reload ?C sample_configured)"
    using l1 r1 by auto
  have n2: "s_speed_hacks (LoadPatches ?C sample_configured) \<noteq>
      s_speed_hacks (Reload ?C sample_configured)"
  proof
    assume "s_speed_hacks (LoadPatches ?C sample_configured) =
      s_speed_hacks (Reload ?C sample_configured)"
    with l3(2) r2 have "GetSpeedhackCycles [16 \<mapsto> 5] 32 = 9" by simp
    then show False by (simp add: GetSpeedhackCycles_def)
  qed
  have o1: "s_on_frame (LoadPatches ?C sample_overwritten) = ?new"
    using t2 by (simp add: sample_configured_inis sample_merge sample_overwritten_def)
  have o2: "s_speed_hacks (LoadPatches ?C sample_overwritten) = [16 \<mapsto> 5]"
    using t2 by (simp add: sample_configured_inis sample_speedhacks_loaded sample_overwritten_def)
  have s1: "LoadPatches ?C (Shutdown ?C sample_configured) = Reload ?C sample_configured"
    by (simp add: Reload_def)
  have e1: "s_on_frame (Reload ?C sample_loaded) = []"
    "s_speed_hacks (Reload ?C sample_loaded) = Map.empty"
    using t3 by (simp_all add: Shutdown_def sample_loaded_def sample_Collaborators_def
        sample_filled_def sample_config_empty)
  from r1 r2 l1 l2 l3 n1 n2 o1 o2 s1 e1 show ?thesis by simp
qed

text \<open>
  \<open>LoadPatches\<close> on a state that holds a patch and a table row, with a configuration
  that defines neither: the patch and the row are still there afterwards.
\<close>

theorem LoadPatches_carries_over_counterexample:
  "s_on_frame (LoadPatches sample_Collaborators sample_loaded) =
     [\<lparr>name = ''Old'', entries = [], enabled = True, default_enabled = True,
        user_defined = False\<rparr>] \<and>
   s_speed_hacks (LoadPatches sample_Collaborators sample_loaded) = [16 \<mapsto> 5] \<and>
   LoadPatchSection ''OnFrame'' []
     (LoadDefaultGameIni sample_Collaborators (host sample_loaded))
     (LoadLocalGameIni sample_Collaborators (host sample_loaded)) = [] \<and>
   LoadSpeedhacks ''Speedhacks'' (LoadGameIni sample_Collaborators (host sample_loaded)) Map.empty
     = Map.empty \<and>
   s_on_frame (LoadPatches sample_Collaborators sample_loaded) \<noteq>
     LoadPatchSection ''OnFrame'' []
       (LoadDefaultGameIni sample_Collaborators (host sample_loaded))
       (LoadLocalGameIni sample_Collaborators (host sample_loaded)) \<and>
   GetSpeedhackCycles (s_speed_hacks (LoadPatches sample_Collaborators sample_loaded)) 16 \<noteq>
     GetSpeedhackCycles
       (LoadSpeedhacks ''Speedhacks'' (LoadGameIni sample_Collaborators (host sample_loaded))
          Map.empty) 16"
  by (simp add: LoadPatches_def Let_def sample_loaded_def sample_Collaborators_def
      sample_filled_def sample_config_empty GetSpeedhackCycles_def)


end
